theory Spec2Isabelle
  imports Main
begin

section \<open>Data model\<close>

text \<open>
  A JSON object with a fixed set of recognised keys is a record of optional fields:
  \<open>None\<close> is an absent key, so that \<open>d.get(k, default)\<close> is a case distinction.
  A Python \<open>dict\<close> that is iterated is an association list in insertion order whose keys
  are distinct; a lookup \<open>d[k]\<close> or \<open>k in d\<close> is \<open>map_of\<close>.
  Python's unbounded integers are \<open>int\<close>.
\<close>

datatype py_error = TypeError | OverflowError

text \<open>The metadata dictionary of one monitored file (\<open>download_file_metadata\<close>).\<close>

record file_metadata =
  fm_sha :: "string option"
  fm_size :: "int option"
  fm_path :: "string option"
  fm_content_hash :: "string option"
  fm_download_url :: "string option"
  fm_last_processed :: "string option"
  fm_added_date :: "string option"

type_synonym snapshot = "(string \<times> file_metadata) list"

text \<open>What a JSON file on disk holds: nothing, text that does not parse, or a value.\<close>

datatype 'a stored = Missing | Corrupt string | Stored 'a

section \<open>Python's \<open>round(a / b)\<close> on integers\<close>

text \<open>
  \<open>a / b\<close> on two \<open>int\<close>s is the double nearest to the exact quotient (ties to even
  mantissa); \<open>round\<close> of a double is the nearest integer (ties to even). A double is
  kept as a pair \<open>(m, k)\<close> standing for \<open>m * 2^k\<close>, with a 53-bit mantissa. The exponent
  range of a double is not modelled: the quotient of \<open>compare_file_metadata\<close> is a mean of
  byte counts, and \<open>OverflowError\<close> needs a quotient of at least \<open>2^1024\<close>.
\<close>

definition rne_div :: "int \<Rightarrow> int \<Rightarrow> int" where
  "rne_div a b =
     (let q = a div b; r = a mod b
      in if 2 * r < b then q
         else if b < 2 * r then q + 1
         else if even q then q else q + 1)"

fun bit_length :: "nat \<Rightarrow> nat" where
  "bit_length n = (if n = 0 then 0 else Suc (bit_length (n div 2)))"

declare bit_length.simps [simp del]

text \<open>\<open>floor_log2 a b\<close> is the integer \<open>e\<close> with \<open>2^e \<le> a / b < 2^(e+1)\<close>, for positive \<open>a\<close>, \<open>b\<close>.\<close>

definition floor_log2 :: "nat \<Rightarrow> nat \<Rightarrow> int" where
  "floor_log2 a b =
     (if b \<le> a then int (bit_length (a div b)) - 1
      else - int (bit_length ((b - 1) div a)))"

definition py_truediv_pos :: "nat \<Rightarrow> nat \<Rightarrow> int \<times> int" where
  "py_truediv_pos a b =
     (let e = floor_log2 a b
      in (if e \<le> 52 then rne_div (int a * 2 ^ nat (52 - e)) (int b)
          else rne_div (int a) (int b * 2 ^ nat (e - 52)),
          e - 52))"

definition py_truediv :: "int \<Rightarrow> nat \<Rightarrow> int \<times> int" where
  "py_truediv a b =
     (if a = 0 then (0, 0)
      else if 0 < a then py_truediv_pos (nat a) b
      else (let (m, k) = py_truediv_pos (nat (- a)) b in (- m, k)))"

definition py_round :: "int \<times> int \<Rightarrow> int" where
  "py_round x = (let (m, k) = x in if 0 \<le> k then m * 2 ^ nat k else rne_div m (2 ^ nat (- k)))"

section \<open>The repository reconciler (\<open>monitor_repo_directory.py\<close>)\<close>

record file_count_analysis =
  total_files :: nat
  average_size :: int

record summary =
  new_count :: nat
  updated_count :: nat
  unchanged_count :: nat

record changes_data =
  monitored_files :: snapshot
  file_count_analysis :: file_count_analysis
  summary :: summary
  new_files :: "string list"
  updated_files :: "string list"
  unchanged_files :: "string list"

text \<open>The four local variables the \<open>for\<close> loop of \<open>compare_file_metadata\<close> updates.\<close>

record compare_vars =
  cv_new_files :: "string list"
  cv_updated_files :: "string list"
  cv_unchanged_files :: "string list"
  cv_total_size :: int

definition get_size :: "file_metadata \<Rightarrow> int" where
  "get_size metadata = (case fm_size metadata of None \<Rightarrow> 0 | Some n \<Rightarrow> n)"

definition compare_body :: "snapshot \<Rightarrow> string \<Rightarrow> file_metadata \<Rightarrow> compare_vars \<Rightarrow> compare_vars" where
  "compare_body old_metadata file_path metadata v =
     (let v1 = v\<lparr>cv_total_size := cv_total_size v + get_size metadata\<rparr>
      in case map_of old_metadata file_path of
           None \<Rightarrow> v1\<lparr>cv_new_files := cv_new_files v1 @ [file_path]\<rparr>
         | Some old \<Rightarrow>
             if fm_content_hash old \<noteq> fm_content_hash metadata
             then v1\<lparr>cv_updated_files := cv_updated_files v1 @ [file_path]\<rparr>
             else v1\<lparr>cv_unchanged_files := cv_unchanged_files v1 @ [file_path]\<rparr>)"

fun compare_loop :: "snapshot \<Rightarrow> snapshot \<Rightarrow> compare_vars \<Rightarrow> compare_vars" where
  "compare_loop old_metadata [] v = v"
| "compare_loop old_metadata ((file_path, metadata) # rest) v =
     compare_loop old_metadata rest (compare_body old_metadata file_path metadata v)"

definition compare_init :: compare_vars where
  "compare_init = \<lparr>cv_new_files = [], cv_updated_files = [], cv_unchanged_files = [], cv_total_size = 0\<rparr>"

definition compare_file_metadata :: "snapshot \<Rightarrow> snapshot \<Rightarrow> changes_data" where
  "compare_file_metadata old_metadata new_metadata =
     (let v = compare_loop old_metadata new_metadata compare_init
      in \<lparr>monitored_files = new_metadata,
          file_count_analysis =
            \<lparr>total_files = length new_metadata,
             average_size =
               (if new_metadata \<noteq> []
                then py_round (py_truediv (cv_total_size v) (length new_metadata))
                else 0)\<rparr>,
          summary =
            \<lparr>new_count = length (cv_new_files v),
             updated_count = length (cv_updated_files v),
             unchanged_count = length (cv_unchanged_files v)\<rparr>,
          new_files = cv_new_files v,
          updated_files = cv_updated_files v,
          unchanged_files = cv_unchanged_files v\<rparr>)"

text \<open>
  \<open>main\<close>, lines 356 to 368: the previous snapshot starts as the empty dictionary and is
  replaced only when \<open>files_data.json\<close> exists and \<open>json.load\<close> succeeds; the comparison
  runs in every case.
\<close>

definition load_previous_files :: "snapshot stored \<Rightarrow> snapshot" where
  "load_previous_files files_data_file =
     (case files_data_file of
        Missing \<Rightarrow> []
      | Corrupt _ \<Rightarrow> []
      | Stored previous_files \<Rightarrow> previous_files)"

definition main_changes_data :: "snapshot stored \<Rightarrow> snapshot \<Rightarrow> changes_data" where
  "main_changes_data files_data_file current_metadata =
     compare_file_metadata (load_previous_files files_data_file) current_metadata"

section \<open>Time\<close>

text \<open>
  A \<open>datetime\<close> is naive (a wall-clock time, here in microseconds since
  0001-01-01T00:00:00) or aware (it carries a UTC offset; the number is then the instant).
  \<open>datetime.now()\<close> is naive. Python refuses to compare or subtract a naive and an aware
  datetime with \<open>TypeError\<close>. Every call of \<open>datetime.now()\<close> is one reading of the clock:
  the clock is the sequence of its readings, and a counter says which reading is next.
  The functions of the standard library that turn text into a datetime and back are
  parameters (\<open>None\<close> is their \<open>ValueError\<close>).
\<close>

datatype datetime = Naive int | Aware int

type_synonym clock = "nat \<Rightarrow> int"

record pylib =
  isoformat :: "int \<Rightarrow> string"
  fromisoformat :: "string \<Rightarrow> datetime option"
  strptime :: "string \<Rightarrow> string \<Rightarrow> datetime option"
  sha256_hexdigest :: "string \<Rightarrow> string"

definition day_us :: int where
  "day_us = 86400000000"

text \<open>\<open>datetime.max\<close> is 9999-12-31T23:59:59.999999, day 3652059 of the calendar.\<close>

definition max_ticks :: int where
  "max_ticks = 3652059 * day_us"

text \<open>\<open>timedelta(days=n)\<close>, in microseconds; the magnitude of a timedelta is bounded.\<close>

definition timedelta_days :: "int \<Rightarrow> py_error + int" where
  "timedelta_days n = (if 999999999 < \<bar>n\<bar> then Inl OverflowError else Inr (n * day_us))"

text \<open>A naive datetime minus a timedelta: the result must be a date of the calendar.\<close>

definition minus_timedelta :: "int \<Rightarrow> int \<Rightarrow> py_error + int" where
  "minus_timedelta t d =
     (let r = t - d in if 0 \<le> r \<and> r < max_ticks then Inr r else Inl OverflowError)"

text \<open>\<open>datetime.now() - timedelta(days=age_threshold_days)\<close>, given the reading of the clock.\<close>

definition cutoff_date_of :: "int \<Rightarrow> int \<Rightarrow> py_error + int" where
  "cutoff_date_of now age_threshold_days =
     (case timedelta_days age_threshold_days of
        Inl e \<Rightarrow> Inl e
      | Inr d \<Rightarrow> minus_timedelta now d)"

text \<open>\<open>d < cutoff\<close> for a naive \<open>cutoff\<close>.\<close>

definition datetime_less :: "datetime \<Rightarrow> int \<Rightarrow> py_error + bool" where
  "datetime_less d cutoff = (case d of Naive t \<Rightarrow> Inr (t < cutoff) | Aware _ \<Rightarrow> Inl TypeError)"

text \<open>\<open>(now - d).days\<close> for a naive \<open>now\<close>: the days of a timedelta are its floor.\<close>

definition days_since :: "int \<Rightarrow> datetime \<Rightarrow> py_error + int" where
  "days_since now d = (case d of Naive t \<Rightarrow> Inr ((now - t) div day_us) | Aware _ \<Rightarrow> Inl TypeError)"

text \<open>\<open>s.replace('Z', '+00:00')\<close>.\<close>

definition replace_Z :: "string \<Rightarrow> string" where
  "replace_Z s = concat (map (\<lambda>c. if c = CHR ''Z'' then ''+00:00'' else [c]) s)"

definition date_formats :: "string list" where
  "date_formats = [''%Y-%m-%dT%H:%M:%SZ'', ''%Y-%m-%d %H:%M:%S'', ''%a, %d %b %Y %H:%M:%S %Z'']"

section \<open>The feed reconciler (\<open>monitor_rss_feed.py\<close>)\<close>

record feed_entry =
  fe_id :: "string option"
  fe_title :: "string option"
  fe_link :: "string option"
  fe_published :: "string option"
  fe_content :: "string option"
  fe_content_hash :: "string option"
  fe_feed_index :: "nat option"
  fe_detected_date :: "string option"

definition get_str :: "string option \<Rightarrow> string" where
  "get_str field = (case field of None \<Rightarrow> [] | Some s \<Rightarrow> s)"

record entry_info =
  ei_id :: string
  ei_title :: string
  ei_days_old :: int

record entry_age_distribution =
  last_week :: nat
  last_month :: nat
  last_quarter :: nat
  older :: nat

record cleanup_info =
  total_entries :: nat
  total_stored :: nat
  entry_growth :: int
  oldest_entries :: "entry_info list"
  entry_age_distribution :: entry_age_distribution

text \<open>
  The inner \<open>for fmt in [...]\<close> of \<open>analyze_entries_for_cleanup\<close>: the first format that
  parses gives the age and leaves the loop; when none parses \<open>days_old\<close> keeps its 0. A
  \<open>TypeError\<close> of the subtraction leaves the loop as an exception.
\<close>

fun published_days_old :: "pylib \<Rightarrow> int \<Rightarrow> string \<Rightarrow> string list \<Rightarrow> py_error + int" where
  "published_days_old lib now published [] = Inr 0"
| "published_days_old lib now published (fmt # fmts) =
     (case strptime lib published fmt of
        None \<Rightarrow> published_days_old lib now published fmts
      | Some entry_date \<Rightarrow> days_since now entry_date)"

definition entry_days_old :: "pylib \<Rightarrow> int \<Rightarrow> feed_entry \<Rightarrow> int" where
  "entry_days_old lib now entry =
     (let published = get_str (fe_published entry)
      in if published \<noteq> []
         then (case published_days_old lib now published date_formats of
                 Inl _ \<Rightarrow> 0
               | Inr days_old \<Rightarrow> days_old)
         else 0)"

definition categorize :: "int \<Rightarrow> entry_age_distribution \<Rightarrow> entry_age_distribution" where
  "categorize days_old dist =
     (if days_old \<le> 7 then dist\<lparr>last_week := last_week dist + 1\<rparr>
      else if days_old \<le> 30 then dist\<lparr>last_month := last_month dist + 1\<rparr>
      else if days_old \<le> 90 then dist\<lparr>last_quarter := last_quarter dist + 1\<rparr>
      else dist\<lparr>older := older dist + 1\<rparr>)"

fun analyze_loop ::
  "pylib \<Rightarrow> int \<Rightarrow> feed_entry list \<Rightarrow> entry_info list \<times> entry_age_distribution
     \<Rightarrow> entry_info list \<times> entry_age_distribution" where
  "analyze_loop lib now [] acc = acc"
| "analyze_loop lib now (entry # rest) (entry_info, dist) =
     (let days_old = entry_days_old lib now entry
      in analyze_loop lib now rest
           (entry_info @ [\<lparr>ei_id = get_str (fe_id entry),
                            ei_title = take 50 (get_str (fe_title entry)),
                            ei_days_old = days_old\<rparr>],
            categorize days_old dist))"

text \<open>
  \<open>entry_info.sort(key=..., reverse=True)\<close> keeps entries of equal age in their order, as
  the stable \<open>sort_key\<close> on the negated age does.
\<close>

definition analyze_entries_for_cleanup ::
  "pylib \<Rightarrow> int \<Rightarrow> feed_entry list \<Rightarrow> feed_entry list \<Rightarrow> cleanup_info" where
  "analyze_entries_for_cleanup lib now old_entries new_entries =
     (let (entry_info, dist) =
            analyze_loop lib now new_entries
              ([], \<lparr>last_week = 0, last_month = 0, last_quarter = 0, older = 0\<rparr>)
      in \<lparr>total_entries = length new_entries,
          total_stored = length old_entries,
          entry_growth = int (length new_entries) - int (length old_entries),
          oldest_entries = take 10 (sort_key (\<lambda>x. - ei_days_old x) entry_info),
          entry_age_distribution = dist\<rparr>)"

record changes =
  new_entries :: "feed_entry list"
  total_new :: nat
  cleanup_analysis :: cleanup_info

text \<open>
  The state of the \<open>for new_entry in new_entries\<close> loop of \<open>compare_feed_entries\<close>: the two
  fields of \<open>changes\<close> it updates, the entries of the argument list as the loop leaves them
  (it writes \<open>detected_date\<close> into the new ones), and the counter of the clock.
\<close>

record feed_vars =
  fv_new_entries :: "feed_entry list"
  fv_total_new :: nat
  fv_entries :: "feed_entry list"
  fv_clock :: nat

definition old_entries_dict :: "feed_entry list \<Rightarrow> string list" where
  "old_entries_dict old_entries = List.map_filter fe_id old_entries"

fun compare_feed_loop ::
  "pylib \<Rightarrow> clock \<Rightarrow> string list \<Rightarrow> feed_entry list \<Rightarrow> feed_vars \<Rightarrow> feed_vars" where
  "compare_feed_loop lib clk old_ids [] v = v"
| "compare_feed_loop lib clk old_ids (new_entry # rest) v =
     (let entry_id = get_str (fe_id new_entry)
      in if entry_id = []
         then compare_feed_loop lib clk old_ids rest (v\<lparr>fv_entries := fv_entries v @ [new_entry]\<rparr>)
         else if entry_id \<notin> set old_ids
         then (let stamped = new_entry\<lparr>fe_detected_date := Some (isoformat lib (clk (fv_clock v)))\<rparr>
               in compare_feed_loop lib clk old_ids rest
                    (v\<lparr>fv_new_entries := fv_new_entries v @ [stamped],
                       fv_total_new := fv_total_new v + 1,
                       fv_entries := fv_entries v @ [stamped],
                       fv_clock := Suc (fv_clock v)\<rparr>))
         else compare_feed_loop lib clk old_ids rest (v\<lparr>fv_entries := fv_entries v @ [new_entry]\<rparr>))"

text \<open>
  \<open>compare_feed_entries\<close> returns \<open>changes\<close>; the model returns with it the argument list
  \<open>new_entries\<close> (here \<open>new_entries_arg\<close>: \<open>new_entries\<close> is the field of \<open>changes\<close>) as the
  call leaves it, and the counter of the clock.
\<close>

definition compare_feed_entries ::
  "pylib \<Rightarrow> clock \<Rightarrow> nat \<Rightarrow> feed_entry list \<Rightarrow> feed_entry list
     \<Rightarrow> changes \<times> feed_entry list \<times> nat" where
  "compare_feed_entries lib clk n old_entries new_entries_arg =
     (let analysis = analyze_entries_for_cleanup lib (clk n) old_entries new_entries_arg;
          v = compare_feed_loop lib clk (old_entries_dict old_entries) new_entries_arg
                \<lparr>fv_new_entries = [], fv_total_new = 0, fv_entries = [], fv_clock = Suc n\<rparr>
      in (\<lparr>new_entries = fv_new_entries v, total_new = fv_total_new v,
            cleanup_analysis = analysis\<rparr>,
          fv_entries v, fv_clock v))"

text \<open>
  \<open>main\<close>, lines 296 to 308: the previous entries start as the empty list and are
  replaced only when \<open>feed_entries.json\<close> exists and \<open>json.load\<close> succeeds.
\<close>

definition load_previous_entries :: "feed_entry list stored \<Rightarrow> feed_entry list" where
  "load_previous_entries feed_entries_file =
     (case feed_entries_file of
        Missing \<Rightarrow> []
      | Corrupt _ \<Rightarrow> []
      | Stored previous_entries \<Rightarrow> previous_entries)"

definition main_changes ::
  "pylib \<Rightarrow> clock \<Rightarrow> nat \<Rightarrow> feed_entry list stored \<Rightarrow> feed_entry list
     \<Rightarrow> changes \<times> feed_entry list \<times> nat" where
  "main_changes lib clk n feed_entries_file current_entries =
     compare_feed_entries lib clk n (load_previous_entries feed_entries_file) current_entries"

section \<open>Properties of the repository reconciler\<close>

definition is_new :: "snapshot \<Rightarrow> string \<times> file_metadata \<Rightarrow> bool" where
  "is_new old kv = (map_of old (fst kv) = None)"

definition is_updated :: "snapshot \<Rightarrow> string \<times> file_metadata \<Rightarrow> bool" where
  "is_updated old kv =
     (case map_of old (fst kv) of None \<Rightarrow> False
      | Some m \<Rightarrow> fm_content_hash m \<noteq> fm_content_hash (snd kv))"

definition is_unchanged :: "snapshot \<Rightarrow> string \<times> file_metadata \<Rightarrow> bool" where
  "is_unchanged old kv =
     (case map_of old (fst kv) of None \<Rightarrow> False
      | Some m \<Rightarrow> fm_content_hash m = fm_content_hash (snd kv))"

lemma compare_loop_new:
  "cv_new_files (compare_loop old cur v) = cv_new_files v @ map fst (filter (is_new old) cur)"
  by (induction cur arbitrary: v)
     (auto simp: compare_body_def is_new_def Let_def split: option.splits)

lemma compare_loop_updated:
  "cv_updated_files (compare_loop old cur v) =
     cv_updated_files v @ map fst (filter (is_updated old) cur)"
  by (induction cur arbitrary: v)
     (auto simp: compare_body_def is_updated_def Let_def split: option.splits)

lemma compare_loop_unchanged:
  "cv_unchanged_files (compare_loop old cur v) =
     cv_unchanged_files v @ map fst (filter (is_unchanged old) cur)"
  by (induction cur arbitrary: v)
     (auto simp: compare_body_def is_unchanged_def Let_def split: option.splits)

lemma compare_loop_total_size:
  "cv_total_size (compare_loop old cur v) = cv_total_size v + sum_list (map (get_size \<circ> snd) cur)"
  by (induction cur arbitrary: v)
     (auto simp: compare_body_def Let_def split: option.splits)

lemma classes_exhaustive: "is_new old kv \<or> is_updated old kv \<or> is_unchanged old kv"
  by (auto simp: is_new_def is_updated_def is_unchanged_def split: option.splits)

lemma classes_exclusive:
  "\<not> (is_new old kv \<and> is_updated old kv)"
  "\<not> (is_new old kv \<and> is_unchanged old kv)"
  "\<not> (is_updated old kv \<and> is_unchanged old kv)"
  by (auto simp: is_new_def is_updated_def is_unchanged_def split: option.splits)

lemma filter_keys_disjoint:
  assumes "distinct (map fst cur)" and "\<And>kv. \<not> (P kv \<and> Q kv)"
  shows "set (map fst (filter P cur)) \<inter> set (map fst (filter Q cur)) = {}"
proof (rule ccontr)
  assume "set (map fst (filter P cur)) \<inter> set (map fst (filter Q cur)) \<noteq> {}"
  then obtain k where "k \<in> set (map fst (filter P cur))" "k \<in> set (map fst (filter Q cur))"
    by blast
  then obtain m1 m2 where a: "(k, m1) \<in> set cur" "P (k, m1)" and b: "(k, m2) \<in> set cur" "Q (k, m2)"
    by auto
  from assms(1) a(1) b(1) have "m1 = m2" by (rule eq_key_imp_eq_value)
  with a b assms(2) show False by blast
qed

lemma filter_keys_cover:
  "set (map fst (filter (is_new old) cur)) \<union> set (map fst (filter (is_updated old) cur))
     \<union> set (map fst (filter (is_unchanged old) cur)) = set (map fst cur)"
proof -
  have "\<And>kv. kv \<in> set cur \<Longrightarrow>
      fst kv \<in> fst ` {x \<in> set cur. is_new old x} \<union> fst ` {x \<in> set cur. is_updated old x}
        \<union> fst ` {x \<in> set cur. is_unchanged old x}"
    using classes_exhaustive [of old] by blast
  then show ?thesis by auto
qed

lemma compare_lists:
  "new_files (compare_file_metadata old cur) = map fst (filter (is_new old) cur)"
  "updated_files (compare_file_metadata old cur) = map fst (filter (is_updated old) cur)"
  "unchanged_files (compare_file_metadata old cur) = map fst (filter (is_unchanged old) cur)"
  by (simp_all add: compare_file_metadata_def Let_def compare_init_def
        compare_loop_new compare_loop_updated compare_loop_unchanged)

lemma compare_total_size:
  "cv_total_size (compare_loop old cur compare_init) = sum_list (map (get_size \<circ> snd) cur)"
  by (simp add: compare_loop_total_size compare_init_def)

subsection \<open>Example data: the scenarios of the specification\<close>

definition example_metadata :: "string \<Rightarrow> int \<Rightarrow> file_metadata" where
  "example_metadata h n =
     \<lparr>fm_sha = None, fm_size = Some n, fm_path = None, fm_content_hash = Some h,
      fm_download_url = None, fm_last_processed = None, fm_added_date = None\<rparr>"

definition example_previous :: snapshot where
  "example_previous = [(''a.md'', example_metadata ''H1'' 100), (''d.md'', example_metadata ''H4'' 50)]"

definition example_current :: snapshot where
  "example_current =
     [(''a.md'', example_metadata ''H1'' 100), (''b.md'', example_metadata ''H2'' 200),
      (''c.md'', example_metadata ''H3'' 300)]"

subsection \<open>The change set partitions the keys of the current snapshot\<close>

text \<open>
  Claim C1. For every previous snapshot and every current snapshot (a dictionary: its keys
  are distinct), the lists \<open>new_files\<close>, \<open>updated_files\<close> and \<open>unchanged_files\<close> that
  \<open>compare_file_metadata\<close> returns are pairwise disjoint, hold no key twice, and together
  hold exactly the keys of the current snapshot.
\<close>

theorem compare_file_metadata_partition:
  assumes "distinct (map fst current)"
  shows "set (new_files (compare_file_metadata previous current))
           \<union> set (updated_files (compare_file_metadata previous current))
           \<union> set (unchanged_files (compare_file_metadata previous current))
         = set (map fst current)
       \<and> set (new_files (compare_file_metadata previous current))
           \<inter> set (updated_files (compare_file_metadata previous current)) = {}
       \<and> set (new_files (compare_file_metadata previous current))
           \<inter> set (unchanged_files (compare_file_metadata previous current)) = {}
       \<and> set (updated_files (compare_file_metadata previous current))
           \<inter> set (unchanged_files (compare_file_metadata previous current)) = {}
       \<and> distinct (new_files (compare_file_metadata previous current)
                    @ updated_files (compare_file_metadata previous current)
                    @ unchanged_files (compare_file_metadata previous current))"
proof -
  let ?n = "map fst (filter (is_new previous) current)"
  let ?u = "map fst (filter (is_updated previous) current)"
  let ?c = "map fst (filter (is_unchanged previous) current)"
  have d: "distinct ?n" "distinct ?u" "distinct ?c"
    using assms by (simp_all add: distinct_map_filter)
  have nu: "set ?n \<inter> set ?u = {}"
    by (rule filter_keys_disjoint [OF assms]) (rule classes_exclusive)
  have nc: "set ?n \<inter> set ?c = {}"
    by (rule filter_keys_disjoint [OF assms]) (rule classes_exclusive)
  have uc: "set ?u \<inter> set ?c = {}"
    by (rule filter_keys_disjoint [OF assms]) (rule classes_exclusive)
  have cov: "set ?n \<union> set ?u \<union> set ?c = set (map fst current)"
    by (rule filter_keys_cover)
  have dist: "distinct (?n @ ?u @ ?c)"
    using d nu nc uc by (simp only: distinct_append set_append) blast
  show ?thesis
    unfolding compare_lists using cov nu nc uc dist by (intro conjI)
qed

theorem compare_file_metadata_partition_witness:
  "distinct (map fst example_current)
   \<and> set (new_files (compare_file_metadata example_previous example_current))
       \<union> set (updated_files (compare_file_metadata example_previous example_current))
       \<union> set (unchanged_files (compare_file_metadata example_previous example_current))
     = {''a.md'', ''b.md'', ''c.md''}
   \<and> new_files (compare_file_metadata example_previous example_current) = [''b.md'', ''c.md'']
   \<and> unchanged_files (compare_file_metadata example_previous example_current) = [''a.md'']"
proof -
  have h: "distinct (map fst example_current)"
    by (simp add: example_current_def)
  have k: "set (map fst example_current) = {''a.md'', ''b.md'', ''c.md''}"
    by (simp add: example_current_def)
  have n: "new_files (compare_file_metadata example_previous example_current) = [''b.md'', ''c.md'']"
    by (simp add: compare_lists is_new_def example_current_def example_previous_def)
  have u: "unchanged_files (compare_file_metadata example_previous example_current) = [''a.md'']"
    by (simp add: compare_lists is_unchanged_def example_current_def example_previous_def)
  from compare_file_metadata_partition [OF h, of example_previous] h k n u
  show ?thesis by simp
qed

subsection \<open>Aggregates\<close>

text \<open>
  Claim C7. For every current snapshot, \<open>total_files\<close> is the number of its items, the
  \<open>total_size\<close> the loop accumulates is the sum of the items' sizes (a missing size counts
  as 0), and \<open>average_size\<close> is Python's \<open>round(total_size / total_files)\<close> when the
  snapshot has an item and 0 when it is empty, where no division takes place.
\<close>

theorem compare_file_metadata_aggregates:
  "total_files (file_count_analysis (compare_file_metadata previous current)) = length current
   \<and> cv_total_size (compare_loop previous current compare_init)
       = sum_list (map (get_size \<circ> snd) current)
   \<and> average_size (file_count_analysis (compare_file_metadata previous current))
       = (if current = [] then 0
          else py_round (py_truediv (sum_list (map (get_size \<circ> snd) current)) (length current)))"
  by (simp add: compare_file_metadata_def Let_def compare_total_size)

theorem compare_file_metadata_aggregates_witness:
  "total_files (file_count_analysis (compare_file_metadata example_previous example_current)) = 3
   \<and> cv_total_size (compare_loop example_previous example_current compare_init) = 600
   \<and> average_size (file_count_analysis (compare_file_metadata example_previous example_current)) = 200
   \<and> average_size (file_count_analysis (compare_file_metadata example_previous [])) = 0"
proof -
  have r: "py_round (py_truediv 600 3) = 200" by code_simp
  have s: "sum_list (map (get_size \<circ> snd) example_current) = 600"
    by (simp add: example_current_def example_metadata_def get_size_def)
  have l: "length example_current = 3" "example_current \<noteq> []"
    by (simp_all add: example_current_def)
  from compare_file_metadata_aggregates [of example_previous example_current]
    compare_file_metadata_aggregates [of example_previous "[]"] r s l
  show ?thesis by simp
qed

section \<open>Properties of the feed reconciler\<close>

text \<open>An entry without the \<open>detected_date\<close> that a run may have written into it.\<close>

definition erase :: "feed_entry \<Rightarrow> feed_entry" where
  "erase e = e\<lparr>fe_detected_date := None\<rparr>"

definition is_new_entry :: "string list \<Rightarrow> feed_entry \<Rightarrow> bool" where
  "is_new_entry old_ids e = (get_str (fe_id e) \<noteq> [] \<and> get_str (fe_id e) \<notin> set old_ids)"

fun stamp_all :: "pylib \<Rightarrow> clock \<Rightarrow> nat \<Rightarrow> feed_entry list \<Rightarrow> feed_entry list" where
  "stamp_all lib clk k [] = []"
| "stamp_all lib clk k (e # es) =
     e\<lparr>fe_detected_date := Some (isoformat lib (clk k))\<rparr> # stamp_all lib clk (Suc k) es"

lemma erase_stamp [simp]: "erase (e\<lparr>fe_detected_date := d\<rparr>) = erase e"
  by (simp add: erase_def)

lemma erase_id: "erase x = erase y \<Longrightarrow> fe_id x = fe_id y"
  by (metis erase_def feed_entry.select_convs(1) feed_entry.surjective feed_entry.update_convs(8))

lemma is_new_entry_stamp [simp]: "is_new_entry ids (e\<lparr>fe_detected_date := d\<rparr>) = is_new_entry ids e"
  by (simp add: is_new_entry_def)

lemma map_erase_stamp_all [simp]: "map erase (stamp_all lib clk k es) = map erase es"
  by (induction es arbitrary: k) simp_all

lemma length_stamp_all [simp]: "length (stamp_all lib clk k es) = length es"
  by (induction es arbitrary: k) simp_all

lemma feed_loop_new_entries:
  "fv_new_entries (compare_feed_loop lib clk ids es v)
     = fv_new_entries v @ stamp_all lib clk (fv_clock v) (filter (is_new_entry ids) es)"
  by (induction es arbitrary: v) (auto simp: Let_def is_new_entry_def)

lemma feed_loop_total_new:
  "fv_total_new (compare_feed_loop lib clk ids es v)
     = fv_total_new v + length (filter (is_new_entry ids) es)"
  by (induction es arbitrary: v) (auto simp: Let_def is_new_entry_def)

lemma feed_loop_clock:
  "fv_clock (compare_feed_loop lib clk ids es v)
     = fv_clock v + length (filter (is_new_entry ids) es)"
  by (induction es arbitrary: v) (auto simp: Let_def is_new_entry_def)

lemma feed_loop_entries:
  "map erase (fv_entries (compare_feed_loop lib clk ids es v))
     = map erase (fv_entries v) @ map erase es"
  by (induction es arbitrary: v) (auto simp: Let_def)

lemma filter_erase_cong:
  "map erase xs = map erase ys \<Longrightarrow>
   map erase (filter (is_new_entry ids) xs) = map erase (filter (is_new_entry ids) ys)"
proof (induction xs arbitrary: ys)
  case Nil then show ?case by simp
next
  case (Cons x xs)
  then obtain y ys' where ys: "ys = y # ys'" and e: "erase x = erase y" and r: "map erase xs = map erase ys'"
    by (cases ys) auto
  from e have "fe_id x = fe_id y" by (rule erase_id)
  then have "is_new_entry ids x = is_new_entry ids y" by (simp add: is_new_entry_def)
  with Cons.IH [OF r] e ys show ?case by simp
qed

lemma feed_new_entries:
  "new_entries (fst (compare_feed_entries lib clk n old cur))
     = stamp_all lib clk (Suc n) (filter (is_new_entry (old_entries_dict old)) cur)"
  by (simp add: compare_feed_entries_def Let_def feed_loop_new_entries)

lemma feed_new_entries_erase:
  "map erase (new_entries (fst (compare_feed_entries lib clk n old cur)))
     = map erase (filter (is_new_entry (old_entries_dict old)) cur)"
  by (simp add: feed_new_entries)

lemma feed_total_new:
  "total_new (fst (compare_feed_entries lib clk n old cur))
     = length (filter (is_new_entry (old_entries_dict old)) cur)"
  by (simp add: compare_feed_entries_def Let_def feed_loop_total_new)

lemma feed_entries_erase:
  "map erase (fst (snd (compare_feed_entries lib clk n old cur))) = map erase cur"
  by (simp add: compare_feed_entries_def Let_def feed_loop_entries)

lemma feed_cleanup_analysis:
  "cleanup_analysis (fst (compare_feed_entries lib clk n old cur))
     = analyze_entries_for_cleanup lib (clk n) old cur"
  by (simp add: compare_feed_entries_def Let_def)

lemma analysis_counts:
  "total_entries (analyze_entries_for_cleanup lib now old cur) = length cur"
  "total_stored (analyze_entries_for_cleanup lib now old cur) = length old"
  "entry_growth (analyze_entries_for_cleanup lib now old cur) = int (length cur) - int (length old)"
  by (simp_all add: analyze_entries_for_cleanup_def Let_def split: prod.splits)

lemma analysis_previous:
  "analyze_entries_for_cleanup lib now old1 cur
     = (analyze_entries_for_cleanup lib now old2 cur)
         \<lparr>total_stored := length old1,
          entry_growth := int (length cur) - int (length old1)\<rparr>"
  by (simp add: analyze_entries_for_cleanup_def Let_def split: prod.splits)

subsection \<open>Example data\<close>

text \<open>
  A clock that reads 2024-06-01T00:00:00 first and one second more at every reading, and
  the standard library on the few texts the examples use.
\<close>

definition example_clock :: clock where
  "example_clock k = 63852796800000000 + 1000000 * int k"

definition example_lib :: pylib where
  "example_lib =
     \<lparr>isoformat = (\<lambda>t. if t = 63852796800000000 then ''2024-06-01T00:00:00''
                        else if t = 63852796801000000 then ''2024-06-01T00:00:01''
                        else if t = 63852796802000000 then ''2024-06-01T00:00:02''
                        else ''2024-06-01T00:00:03''),
      fromisoformat = (\<lambda>s. if s = ''2024-03-03T00:00:00'' then Some (Naive 63845020800000000)
                            else if s = ''2024-03-02T00:00:00'' then Some (Naive 63844934400000000)
                            else if s = ''2024-05-31T00:00:00+00:00'' then Some (Aware 63852710400000000)
                            else None),
      strptime = (\<lambda>s fmt. if s = ''2024-01-01T00:00:00Z'' \<and> fmt = ''%Y-%m-%dT%H:%M:%SZ''
                             then Some (Naive 63839664000000000) else None),
      sha256_hexdigest = (\<lambda>s. ''e3b0c44298fc1c149afbf4c8996fb92427ae41e4649b934ca495991b7852b855'')\<rparr>"

definition example_entry :: "string \<Rightarrow> string \<Rightarrow> feed_entry" where
  "example_entry i h =
     \<lparr>fe_id = Some i, fe_title = Some ''Release notes'', fe_link = Some ''https://example.org/post'',
      fe_published = Some ''2024-01-01T00:00:00Z'', fe_content = Some ''text'',
      fe_content_hash = Some h, fe_feed_index = Some 0, fe_detected_date = None\<rparr>"

definition same_analysis_fields :: "feed_entry \<Rightarrow> feed_entry \<Rightarrow> bool" where
  "same_analysis_fields x y =
     (fe_id x = fe_id y \<and> fe_title x = fe_title y \<and> fe_published x = fe_published y)"

lemma entry_days_old_cong:
  "fe_published x = fe_published y \<Longrightarrow> entry_days_old lib now x = entry_days_old lib now y"
  by (simp add: entry_days_old_def)

lemma analyze_loop_cong:
  "list_all2 same_analysis_fields xs ys \<Longrightarrow>
   analyze_loop lib now xs acc = analyze_loop lib now ys acc"
proof (induction xs ys arbitrary: acc rule: list_all2_induct)
  case Nil
  then show ?case by simp
next
  case (Cons x xs y ys)
  obtain info dist where acc: "acc = (info, dist)" by (cases acc)
  from Cons.hyps(1) have f: "fe_id x = fe_id y" "fe_title x = fe_title y" "fe_published x = fe_published y"
    by (simp_all add: same_analysis_fields_def)
  from f(3) have d: "entry_days_old lib now x = entry_days_old lib now y"
    by (rule entry_days_old_cong)
  show ?case
    unfolding acc by (simp add: Let_def f d Cons.IH)
qed

lemma analyze_entries_cong:
  assumes "list_all2 same_analysis_fields xs ys"
  shows "analyze_entries_for_cleanup lib now old xs = analyze_entries_for_cleanup lib now old ys"
proof -
  have l: "length xs = length ys" using assms by (rule list_all2_lengthD)
  show ?thesis
    unfolding analyze_entries_for_cleanup_def analyze_loop_cong [OF assms] l ..
qed

lemma key_in_filter:
  assumes "distinct (map fst cur)" and "(k, m) \<in> set cur"
  shows "(k \<in> set (map fst (filter P cur))) = P (k, m)"
proof
  assume "k \<in> set (map fst (filter P cur))"
  then obtain m' where a: "(k, m') \<in> set cur" "P (k, m')" by auto
  from assms(1) a(1) assms(2) have "m' = m" by (rule eq_key_imp_eq_value)
  with a show "P (k, m)" by simp
next
  assume "P (k, m)"
  with assms(2) have "(k, m) \<in> set (filter P cur)" by simp
  then show "k \<in> set (map fst (filter P cur))" by force
qed

lemma feed_new_entry_iff:
  assumes "e \<in> set entries"
  shows "(\<exists>x \<in> set (new_entries (fst (compare_feed_entries lib clk n old entries))). erase x = erase e)
         = is_new_entry (old_entries_dict old) e"
proof -
  let ?ids = "old_entries_dict old"
  have s: "erase ` set (new_entries (fst (compare_feed_entries lib clk n old entries)))
           = erase ` set (filter (is_new_entry ?ids) entries)"
    using feed_new_entries_erase [of lib clk n old entries] by (metis set_map)
  show ?thesis
  proof
    assume "\<exists>x \<in> set (new_entries (fst (compare_feed_entries lib clk n old entries))). erase x = erase e"
    then have "erase e \<in> erase ` set (filter (is_new_entry ?ids) entries)"
      using s by (metis imageI)
    then obtain y where y: "y \<in> set entries" "is_new_entry ?ids y" "erase y = erase e" by auto
    from y(3) have "fe_id y = fe_id e" by (rule erase_id)
    with y(2) show "is_new_entry ?ids e" by (simp add: is_new_entry_def)
  next
    assume "is_new_entry ?ids e"
    with assms have "erase e \<in> erase ` set (filter (is_new_entry ?ids) entries)" by simp
    with s have "erase e \<in> erase ` set (new_entries (fst (compare_feed_entries lib clk n old entries)))"
      by simp
    then show "\<exists>x \<in> set (new_entries (fst (compare_feed_entries lib clk n old entries))). erase x = erase e"
      by (metis imageE)
  qed
qed

subsection \<open>Classification of the items of the current snapshot\<close>

text \<open>
  Claim C2, as amended. The repository reconciler classifies every key of the current
  snapshot by the previous one: absent there, it is new; present with an equal
  \<open>content_hash\<close>, unchanged; present with a different one, updated; and it is in no other
  list. The feed reconciler has one class only: an entry of the current list whose id is
  not empty is among \<open>new_entries\<close> (with its \<open>detected_date\<close> written) exactly when its id
  is no id of the previous entries, whatever the content hashes are. It reports no
  updated and no unchanged entry, and it skips an entry whose id is empty.
\<close>

theorem classification_of_current_items:
  assumes "distinct (map fst current)" and "(k, m) \<in> set current"
    and "e \<in> set entries" and "get_str (fe_id e) \<noteq> []"
  shows "(case map_of previous k of
            None \<Rightarrow> k \<in> set (new_files (compare_file_metadata previous current))
                    \<and> k \<notin> set (updated_files (compare_file_metadata previous current))
                    \<and> k \<notin> set (unchanged_files (compare_file_metadata previous current))
          | Some old \<Rightarrow>
              if fm_content_hash old = fm_content_hash m
              then k \<in> set (unchanged_files (compare_file_metadata previous current))
                   \<and> k \<notin> set (new_files (compare_file_metadata previous current))
                   \<and> k \<notin> set (updated_files (compare_file_metadata previous current))
              else k \<in> set (updated_files (compare_file_metadata previous current))
                   \<and> k \<notin> set (new_files (compare_file_metadata previous current))
                   \<and> k \<notin> set (unchanged_files (compare_file_metadata previous current)))
       \<and> ((\<exists>x \<in> set (new_entries (fst (compare_feed_entries lib clk n old_entries entries))).
              erase x = erase e)
            = (get_str (fe_id e) \<notin> set (old_entries_dict old_entries)))"
proof -
  have n: "(k \<in> set (new_files (compare_file_metadata previous current))) = is_new previous (k, m)"
    and u: "(k \<in> set (updated_files (compare_file_metadata previous current))) = is_updated previous (k, m)"
    and c: "(k \<in> set (unchanged_files (compare_file_metadata previous current))) = is_unchanged previous (k, m)"
    unfolding compare_lists by (rule key_in_filter [OF assms(1,2)])+
  have repo: "(case map_of previous k of
            None \<Rightarrow> k \<in> set (new_files (compare_file_metadata previous current))
                    \<and> k \<notin> set (updated_files (compare_file_metadata previous current))
                    \<and> k \<notin> set (unchanged_files (compare_file_metadata previous current))
          | Some old \<Rightarrow>
              if fm_content_hash old = fm_content_hash m
              then k \<in> set (unchanged_files (compare_file_metadata previous current))
                   \<and> k \<notin> set (new_files (compare_file_metadata previous current))
                   \<and> k \<notin> set (updated_files (compare_file_metadata previous current))
              else k \<in> set (updated_files (compare_file_metadata previous current))
                   \<and> k \<notin> set (new_files (compare_file_metadata previous current))
                   \<and> k \<notin> set (unchanged_files (compare_file_metadata previous current)))"
    unfolding n u c by (simp add: is_new_def is_updated_def is_unchanged_def split: option.splits)
  have feed: "(\<exists>x \<in> set (new_entries (fst (compare_feed_entries lib clk n old_entries entries))).
              erase x = erase e)
            = (get_str (fe_id e) \<notin> set (old_entries_dict old_entries))"
    using feed_new_entry_iff [OF assms(3), of lib clk n old_entries] assms(4)
    by (simp add: is_new_entry_def)
  from repo feed show ?thesis by (rule conjI)
qed

theorem classification_of_current_items_witness:
  "distinct (map fst example_current)
   \<and> (''b.md'', example_metadata ''H2'' 200) \<in> set example_current
   \<and> example_entry ''y'' ''H2'' \<in> set [example_entry ''x'' ''H1'', example_entry ''y'' ''H2'']
   \<and> get_str (fe_id (example_entry ''y'' ''H2'')) \<noteq> []
   \<and> ''b.md'' \<in> set (new_files (compare_file_metadata example_previous example_current))
   \<and> ''b.md'' \<notin> set (updated_files (compare_file_metadata example_previous example_current))
   \<and> (\<exists>x \<in> set (new_entries (fst (compare_feed_entries example_lib example_clock 0
                 [example_entry ''x'' ''H0'']
                 [example_entry ''x'' ''H1'', example_entry ''y'' ''H2'']))).
          erase x = erase (example_entry ''y'' ''H2''))"
proof -
  have a: "distinct (map fst example_current)"
    by (simp add: example_current_def)
  have b: "(''b.md'', example_metadata ''H2'' 200) \<in> set example_current"
    by (simp add: example_current_def)
  have c: "example_entry ''y'' ''H2'' \<in> set [example_entry ''x'' ''H1'', example_entry ''y'' ''H2'']"
    by simp
  have d: "get_str (fe_id (example_entry ''y'' ''H2'')) \<noteq> []"
    by (simp add: example_entry_def get_str_def)
  have m: "map_of example_previous ''b.md'' = None"
    by (simp add: example_previous_def)
  have i: "get_str (fe_id (example_entry ''y'' ''H2'')) \<notin> set (old_entries_dict [example_entry ''x'' ''H0''])"
    by (simp add: example_entry_def get_str_def old_entries_dict_def List.map_filter_def)
  from classification_of_current_items [OF a b c d, of example_previous example_lib example_clock 0
      "[example_entry ''x'' ''H0'']"] a b c d m i
  show ?thesis by simp
qed

text \<open>
  The claim as stated fails for the feed reconciler: an entry that is present in the
  previous list under the same id with another content hash is reported nowhere, and
  the changes are those of an entry whose hash did not change.
\<close>

theorem feed_reconciler_classification_counterexample:
  "new_entries (fst (compare_feed_entries example_lib example_clock 0
       [example_entry ''x'' ''H1''] [example_entry ''x'' ''H2''])) = []
   \<and> total_new (fst (compare_feed_entries example_lib example_clock 0
       [example_entry ''x'' ''H1''] [example_entry ''x'' ''H2''])) = 0
   \<and> fst (compare_feed_entries example_lib example_clock 0
       [example_entry ''x'' ''H1''] [example_entry ''x'' ''H2''])
     = fst (compare_feed_entries example_lib example_clock 0
       [example_entry ''x'' ''H1''] [example_entry ''x'' ''H1''])"
proof -
  have ids: "old_entries_dict [example_entry ''x'' ''H1''] = [''x'']"
    by (simp add: old_entries_dict_def List.map_filter_def example_entry_def)
  have n: "\<And>h. \<not> is_new_entry [''x''] (example_entry ''x'' h)"
    by (simp add: is_new_entry_def example_entry_def get_str_def)
  have ne: "\<And>h. new_entries (fst (compare_feed_entries example_lib example_clock 0
       [example_entry ''x'' ''H1''] [example_entry ''x'' h])) = []"
    by (simp add: feed_new_entries ids n)
  have tn: "\<And>h. total_new (fst (compare_feed_entries example_lib example_clock 0
       [example_entry ''x'' ''H1''] [example_entry ''x'' h])) = 0"
    by (simp add: feed_total_new ids n)
  have ca: "\<And>h. cleanup_analysis (fst (compare_feed_entries example_lib example_clock 0
       [example_entry ''x'' ''H1''] [example_entry ''x'' h]))
     = cleanup_analysis (fst (compare_feed_entries example_lib example_clock 0
       [example_entry ''x'' ''H1''] [example_entry ''x'' ''H1'']))"
    unfolding feed_cleanup_analysis
    by (rule analyze_entries_cong) (simp add: same_analysis_fields_def example_entry_def)
  have eq: "fst (compare_feed_entries example_lib example_clock 0
       [example_entry ''x'' ''H1''] [example_entry ''x'' ''H2''])
     = fst (compare_feed_entries example_lib example_clock 0
       [example_entry ''x'' ''H1''] [example_entry ''x'' ''H1''])"
    by (rule changes.equality) (simp_all add: ne tn ca [of "''H2''"])
  from ne [of "''H2''"] tn [of "''H2''"] eq show ?thesis by simp
qed

lemma has_id_filter:
  "filter (is_new_entry []) entries = filter (\<lambda>e. get_str (fe_id e) \<noteq> []) entries"
  by (rule filter_cong) (simp_all add: is_new_entry_def)

subsection \<open>A previous snapshot that is missing or does not parse\<close>

text \<open>
  Claim C3, as amended. When the stored previous snapshot is missing or does not parse,
  both monitors compare against the empty previous snapshot and go on: the repository
  monitor reports every current file as new and none as updated or unchanged; the feed
  monitor reports as new every current entry whose id is not empty (and only those: an
  entry with an empty id is skipped by \<open>compare_feed_entries\<close>).
\<close>

theorem missing_or_corrupt_previous_snapshot:
  assumes "files_data_file = Missing \<or> files_data_file = Corrupt raw_files"
    and "feed_entries_file = Missing \<or> feed_entries_file = Corrupt raw_entries"
  shows "new_files (main_changes_data files_data_file current) = map fst current
       \<and> updated_files (main_changes_data files_data_file current) = []
       \<and> unchanged_files (main_changes_data files_data_file current) = []
       \<and> new_count (summary (main_changes_data files_data_file current)) = length current
       \<and> map erase (new_entries (fst (main_changes lib clk n feed_entries_file entries)))
           = map erase (filter (\<lambda>e. get_str (fe_id e) \<noteq> []) entries)
       \<and> total_new (fst (main_changes lib clk n feed_entries_file entries))
           = length (filter (\<lambda>e. get_str (fe_id e) \<noteq> []) entries)"
proof -
  from assms(1) have p: "load_previous_files files_data_file = []"
    by (auto simp: load_previous_files_def)
  from assms(2) have q: "load_previous_entries feed_entries_file = []"
    by (auto simp: load_previous_entries_def)
  have n: "filter (is_new []) current = current"
    by (simp add: is_new_def)
  have u: "filter (is_updated []) current = []"
    by (simp add: is_updated_def)
  have c: "filter (is_unchanged []) current = []"
    by (simp add: is_unchanged_def)
  have l: "new_count (summary (compare_file_metadata [] current))
             = length (new_files (compare_file_metadata [] current))"
    by (simp add: compare_file_metadata_def Let_def)
  have d: "old_entries_dict [] = []"
    by (simp add: old_entries_dict_def List.map_filter_def)
  show ?thesis
    unfolding main_changes_data_def main_changes_def p q
    by (simp add: l compare_lists n u c feed_new_entries feed_total_new d has_id_filter)
qed

theorem missing_or_corrupt_previous_snapshot_witness:
  "new_files (main_changes_data Missing example_current) = [''a.md'', ''b.md'', ''c.md'']
   \<and> updated_files (main_changes_data Missing example_current) = []
   \<and> unchanged_files (main_changes_data Missing example_current) = []
   \<and> total_new (fst (main_changes example_lib example_clock 0 (Corrupt ''{'')
         [example_entry ''x'' ''H1'', example_entry ''y'' ''H2''])) = 2"
proof -
  have k: "map fst example_current = [''a.md'', ''b.md'', ''c.md'']"
    by (simp add: example_current_def)
  have i: "filter (\<lambda>e. get_str (fe_id e) \<noteq> []) [example_entry ''x'' ''H1'', example_entry ''y'' ''H2'']
             = [example_entry ''x'' ''H1'', example_entry ''y'' ''H2'']"
    by (simp add: example_entry_def get_str_def)
  from missing_or_corrupt_previous_snapshot [of Missing "[]" "Corrupt ''{''" "''{''" example_current
      example_lib example_clock 0 "[example_entry ''x'' ''H1'', example_entry ''y'' ''H2'']"] k i
  show ?thesis by simp
qed

text \<open>
  The claim as stated fails for the feed monitor: with no stored entries, a current entry
  whose id is the empty text is not reported as new.
\<close>

theorem feed_entry_without_id_counterexample:
  "new_entries (fst (main_changes example_lib example_clock 0 Missing [example_entry [] ''H1''])) = []
   \<and> total_new (fst (main_changes example_lib example_clock 0 Missing [example_entry [] ''H1''])) = 0"
proof -
  have n: "\<not> is_new_entry [] (example_entry [] ''H1'')"
    by (simp add: is_new_entry_def example_entry_def get_str_def)
  have d: "old_entries_dict [] = []"
    by (simp add: old_entries_dict_def List.map_filter_def)
  show ?thesis
    by (simp add: main_changes_def load_previous_entries_def feed_new_entries feed_total_new d n)
qed

subsection \<open>Identities that left the source\<close>

lemma map_of_filter_other:
  "k' \<noteq> k \<Longrightarrow> map_of (filter (\<lambda>kv. fst kv \<noteq> k) xs) k' = map_of xs k'"
  by (induction xs) auto

lemma compare_body_previous:
  "map_of old1 file_path = map_of old2 file_path \<Longrightarrow>
   compare_body old1 file_path metadata v = compare_body old2 file_path metadata v"
  by (simp add: compare_body_def)

lemma compare_loop_previous:
  "(\<And>kv. kv \<in> set cur \<Longrightarrow> map_of old1 (fst kv) = map_of old2 (fst kv)) \<Longrightarrow>
   compare_loop old1 cur v = compare_loop old2 cur v"
proof (induction cur arbitrary: v)
  case Nil
  then show ?case by simp
next
  case (Cons kv cur)
  obtain file_path metadata where kv: "kv = (file_path, metadata)" by (cases kv)
  have "map_of old1 file_path = map_of old2 file_path"
    using Cons.prems [of kv] kv by simp
  then have b: "compare_body old1 file_path metadata v = compare_body old2 file_path metadata v"
    by (rule compare_body_previous)
  have "compare_loop old1 cur (compare_body old2 file_path metadata v)
          = compare_loop old2 cur (compare_body old2 file_path metadata v)"
    by (rule Cons.IH) (simp add: Cons.prems)
  with b show ?case by (simp add: kv)
qed

lemma compare_file_metadata_previous:
  "(\<And>kv. kv \<in> set cur \<Longrightarrow> map_of old1 (fst kv) = map_of old2 (fst kv)) \<Longrightarrow>
   compare_file_metadata old1 cur = compare_file_metadata old2 cur"
  by (simp add: compare_file_metadata_def compare_loop_previous [of cur old1 old2])

lemma feed_loop_ids:
  "(\<And>e. e \<in> set es \<Longrightarrow> (get_str (fe_id e) \<in> set ids1) = (get_str (fe_id e) \<in> set ids2)) \<Longrightarrow>
   compare_feed_loop lib clk ids1 es v = compare_feed_loop lib clk ids2 es v"
proof (induction es arbitrary: v)
  case Nil
  then show ?case by simp
next
  case (Cons e es)
  have m: "(get_str (fe_id e) \<in> set ids1) = (get_str (fe_id e) \<in> set ids2)"
    by (rule Cons.prems) simp
  have r: "\<And>w. compare_feed_loop lib clk ids1 es w = compare_feed_loop lib clk ids2 es w"
    by (rule Cons.IH) (simp add: Cons.prems)
  show ?case by (simp add: Let_def m r)
qed

lemma set_old_entries_dict:
  "set (old_entries_dict old) = {i. \<exists>e \<in> set old. fe_id e = Some i}"
  by (induction old) (auto simp: old_entries_dict_def List.map_filter_simps split: option.splits)

lemma analyze_loop_ids:
  "map ei_id (fst (analyze_loop lib now es acc))
     = map ei_id (fst acc) @ map (\<lambda>e. get_str (fe_id e)) es"
proof (induction es arbitrary: acc)
  case Nil
  then show ?case by simp
next
  case (Cons e es)
  obtain info dist where acc: "acc = (info, dist)" by (cases acc)
  show ?case unfolding acc by (simp add: Let_def Cons.IH)
qed

lemma oldest_entries_ids:
  "ei_id ` set (oldest_entries (analyze_entries_for_cleanup lib now old es))
     \<subseteq> (\<lambda>e. get_str (fe_id e)) ` set es"
proof -
  obtain info dist where a: "analyze_loop lib now es
      ([], \<lparr>last_week = 0, last_month = 0, last_quarter = 0, older = 0\<rparr>) = (info, dist)"
    by (cases "analyze_loop lib now es ([], \<lparr>last_week = 0, last_month = 0, last_quarter = 0, older = 0\<rparr>)")
  have "map ei_id info = map (\<lambda>e. get_str (fe_id e)) es"
    using analyze_loop_ids [of lib now es "([], \<lparr>last_week = 0, last_month = 0, last_quarter = 0, older = 0\<rparr>)"] a
    by simp
  then have i: "ei_id ` set info = (\<lambda>e. get_str (fe_id e)) ` set es"
    by (metis set_map)
  have "set (take 10 (sort_key (\<lambda>x. - ei_days_old x) info)) \<subseteq> set info"
    using set_take_subset [of 10 "sort_key (\<lambda>x. - ei_days_old x) info"] by simp
  then have "ei_id ` set (take 10 (sort_key (\<lambda>x. - ei_days_old x) info)) \<subseteq> ei_id ` set info"
    by (rule image_mono)
  with i show ?thesis
    by (simp add: analyze_entries_for_cleanup_def a)
qed

lemma new_entries_ids:
  "(\<lambda>e. get_str (fe_id e)) ` set (new_entries (fst (compare_feed_entries lib clk n old entries)))
     \<subseteq> (\<lambda>e. get_str (fe_id e)) ` set entries"
proof -
  let ?new = "new_entries (fst (compare_feed_entries lib clk n old entries))"
  have e: "\<And>xs. map (\<lambda>e. get_str (fe_id e)) xs = map (\<lambda>e. get_str (fe_id e)) (map erase xs)"
    by (simp add: erase_def)
  have "map (\<lambda>e. get_str (fe_id e)) ?new
          = map (\<lambda>e. get_str (fe_id e)) (filter (is_new_entry (old_entries_dict old)) entries)"
    using e [of ?new] e [of "filter (is_new_entry (old_entries_dict old)) entries"]
      feed_new_entries_erase [of lib clk n old entries] by simp
  then have "(\<lambda>e. get_str (fe_id e)) ` set ?new
          = (\<lambda>e. get_str (fe_id e)) ` set (filter (is_new_entry (old_entries_dict old)) entries)"
    by (metis set_map)
  then show ?thesis by auto
qed

lemma old_entries_dict_without:
  "j \<noteq> i \<Longrightarrow>
   (j \<in> set (old_entries_dict (filter (\<lambda>e. get_str (fe_id e) \<noteq> i) old)))
     = (j \<in> set (old_entries_dict old))"
  by (auto simp: set_old_entries_dict get_str_def)

lemma compare_feed_entries_without:
  assumes "i \<notin> (\<lambda>e. get_str (fe_id e)) ` set entries"
  shows "new_entries (fst (compare_feed_entries lib clk n (filter (\<lambda>e. get_str (fe_id e) \<noteq> i) old) entries))
           = new_entries (fst (compare_feed_entries lib clk n old entries))"
    and "total_new (fst (compare_feed_entries lib clk n (filter (\<lambda>e. get_str (fe_id e) \<noteq> i) old) entries))
           = total_new (fst (compare_feed_entries lib clk n old entries))"
proof -
  let ?old' = "filter (\<lambda>e. get_str (fe_id e) \<noteq> i) old"
  have "\<And>v. compare_feed_loop lib clk (old_entries_dict ?old') entries v
           = compare_feed_loop lib clk (old_entries_dict old) entries v"
  proof (rule feed_loop_ids)
    fix v e assume "e \<in> set entries"
    with assms have "get_str (fe_id e) \<noteq> i" by auto
    then show "(get_str (fe_id e) \<in> set (old_entries_dict ?old'))
                 = (get_str (fe_id e) \<in> set (old_entries_dict old))"
      by (rule old_entries_dict_without)
  qed
  then show "new_entries (fst (compare_feed_entries lib clk n ?old' entries))
           = new_entries (fst (compare_feed_entries lib clk n old entries))"
    and "total_new (fst (compare_feed_entries lib clk n ?old' entries))
           = total_new (fst (compare_feed_entries lib clk n old entries))"
    by (simp_all add: compare_feed_entries_def Let_def)
qed

text \<open>
  Claim C8, as amended. An identity of the previous snapshot that the current snapshot
  does not have is in none of the lists of the change set, and no classification of
  deleted items exists. For the repository reconciler the whole output is the one the
  previous snapshot without that identity gives. For the feed reconciler the identity is
  not among \<open>new_entries\<close> nor \<open>oldest_entries\<close>, and \<open>new_entries\<close> and \<open>total_new\<close> are
  those the previous list without it gives; of the cleanup analysis only \<open>total_stored\<close>
  and \<open>entry_growth\<close>, which measure the previous list, change with it.
\<close>

theorem removed_identity_not_reported:
  assumes "k \<notin> fst ` set current"
    and "i \<notin> (\<lambda>e. get_str (fe_id e)) ` set entries"
  shows "k \<notin> set (new_files (compare_file_metadata previous current))
       \<and> k \<notin> set (updated_files (compare_file_metadata previous current))
       \<and> k \<notin> set (unchanged_files (compare_file_metadata previous current))
       \<and> k \<notin> fst ` set (monitored_files (compare_file_metadata previous current))
       \<and> compare_file_metadata (filter (\<lambda>kv. fst kv \<noteq> k) previous) current
           = compare_file_metadata previous current
       \<and> i \<notin> (\<lambda>e. get_str (fe_id e)) ` set (new_entries (fst (compare_feed_entries lib clk n old entries)))
       \<and> i \<notin> ei_id ` set (oldest_entries (cleanup_analysis (fst (compare_feed_entries lib clk n old entries))))
       \<and> new_entries (fst (compare_feed_entries lib clk n (filter (\<lambda>e. get_str (fe_id e) \<noteq> i) old) entries))
           = new_entries (fst (compare_feed_entries lib clk n old entries))
       \<and> total_new (fst (compare_feed_entries lib clk n (filter (\<lambda>e. get_str (fe_id e) \<noteq> i) old) entries))
           = total_new (fst (compare_feed_entries lib clk n old entries))
       \<and> cleanup_analysis (fst (compare_feed_entries lib clk n (filter (\<lambda>e. get_str (fe_id e) \<noteq> i) old) entries))
           = (cleanup_analysis (fst (compare_feed_entries lib clk n old entries)))
               \<lparr>total_stored := length (filter (\<lambda>e. get_str (fe_id e) \<noteq> i) old),
                entry_growth := int (length entries)
                                 - int (length (filter (\<lambda>e. get_str (fe_id e) \<noteq> i) old))\<rparr>"
proof -
  let ?cs = "compare_file_metadata previous current"
  have sub: "\<And>P. set (map fst (filter P current)) \<subseteq> fst ` set current" by auto
  have r1: "k \<notin> set (new_files ?cs)"
    unfolding compare_lists using assms(1) sub [of "is_new previous"] by blast
  have r2: "k \<notin> set (updated_files ?cs)"
    unfolding compare_lists using assms(1) sub [of "is_updated previous"] by blast
  have r3: "k \<notin> set (unchanged_files ?cs)"
    unfolding compare_lists using assms(1) sub [of "is_unchanged previous"] by blast
  have r4: "k \<notin> fst ` set (monitored_files ?cs)"
    using assms(1) by (simp add: compare_file_metadata_def Let_def)
  have r5: "compare_file_metadata (filter (\<lambda>kv. fst kv \<noteq> k) previous) current = ?cs"
  proof (rule compare_file_metadata_previous)
    fix kv assume "kv \<in> set current"
    with assms(1) have "fst kv \<noteq> k" by auto
    then show "map_of (filter (\<lambda>kv. fst kv \<noteq> k) previous) (fst kv) = map_of previous (fst kv)"
      by (rule map_of_filter_other)
  qed
  have f1: "i \<notin> (\<lambda>e. get_str (fe_id e)) ` set (new_entries (fst (compare_feed_entries lib clk n old entries)))"
    using assms(2) new_entries_ids [of lib clk n old entries] by blast
  have f2: "i \<notin> ei_id ` set (oldest_entries (cleanup_analysis (fst (compare_feed_entries lib clk n old entries))))"
    unfolding feed_cleanup_analysis
    using assms(2) oldest_entries_ids [of lib "clk n" old entries] by blast
  note f3 = compare_feed_entries_without [OF assms(2), of lib clk n old]
  have f4: "cleanup_analysis (fst (compare_feed_entries lib clk n (filter (\<lambda>e. get_str (fe_id e) \<noteq> i) old) entries))
           = (cleanup_analysis (fst (compare_feed_entries lib clk n old entries)))
               \<lparr>total_stored := length (filter (\<lambda>e. get_str (fe_id e) \<noteq> i) old),
                entry_growth := int (length entries)
                                 - int (length (filter (\<lambda>e. get_str (fe_id e) \<noteq> i) old))\<rparr>"
    unfolding feed_cleanup_analysis by (rule analysis_previous)
  from r1 r2 r3 r4 r5 f1 f2 f3 f4 show ?thesis by (intro conjI)
qed

theorem removed_identity_not_reported_witness:
  "''d.md'' \<notin> fst ` set example_current
   \<and> ''gone'' \<notin> (\<lambda>e. get_str (fe_id e)) ` set [example_entry ''x'' ''H1'']
   \<and> map_of example_previous ''d.md'' \<noteq> None
   \<and> ''d.md'' \<notin> set (new_files (compare_file_metadata example_previous example_current))
   \<and> ''d.md'' \<notin> set (updated_files (compare_file_metadata example_previous example_current))
   \<and> ''d.md'' \<notin> set (unchanged_files (compare_file_metadata example_previous example_current))
   \<and> compare_file_metadata [(''a.md'', example_metadata ''H1'' 100)] example_current
       = compare_file_metadata example_previous example_current
   \<and> ''gone'' \<notin> (\<lambda>e. get_str (fe_id e)) ` set (new_entries (fst (compare_feed_entries
         example_lib example_clock 0 [example_entry ''gone'' ''H0''] [example_entry ''x'' ''H1''])))"
proof -
  have a: "''d.md'' \<notin> fst ` set example_current"
    by (simp add: example_current_def)
  have b: "''gone'' \<notin> (\<lambda>e. get_str (fe_id e)) ` set [example_entry ''x'' ''H1'']"
    by (simp add: example_entry_def get_str_def)
  have c: "map_of example_previous ''d.md'' \<noteq> None"
    by (simp add: example_previous_def)
  have d: "filter (\<lambda>kv. fst kv \<noteq> ''d.md'') example_previous = [(''a.md'', example_metadata ''H1'' 100)]"
    by (simp add: example_previous_def)
  from removed_identity_not_reported [OF a b, of example_previous example_lib example_clock 0
      "[example_entry ''gone'' ''H0'']"] a b c d
  show ?thesis by simp
qed

text \<open>
  The claim as stated fails for the feed reconciler: \<open>total_stored\<close> counts the previous
  entries, the removed ones too, and \<open>entry_growth\<close> is smaller by each of them.
\<close>

theorem previous_entries_counted_counterexample:
  "''gone'' \<notin> (\<lambda>e. get_str (fe_id e)) ` set [example_entry ''x'' ''H1'']
   \<and> total_stored (cleanup_analysis (fst (compare_feed_entries example_lib example_clock 0
         [example_entry ''gone'' ''H0''] [example_entry ''x'' ''H1'']))) = 1
   \<and> entry_growth (cleanup_analysis (fst (compare_feed_entries example_lib example_clock 0
         [example_entry ''gone'' ''H0''] [example_entry ''x'' ''H1'']))) = 0
   \<and> total_stored (cleanup_analysis (fst (compare_feed_entries example_lib example_clock 0
         [] [example_entry ''x'' ''H1'']))) = 0
   \<and> entry_growth (cleanup_analysis (fst (compare_feed_entries example_lib example_clock 0
         [] [example_entry ''x'' ''H1'']))) = 1"
  by (simp add: feed_cleanup_analysis analysis_counts example_entry_def get_str_def)

subsection \<open>Running the reconciliation twice\<close>

lemma erase_same_fields: "erase x = erase y \<Longrightarrow> same_analysis_fields x y"
proof -
  assume e: "erase x = erase y"
  have "fe_id (erase x) = fe_id x" "fe_title (erase x) = fe_title x" "fe_published (erase x) = fe_published x"
       "fe_id (erase y) = fe_id y" "fe_title (erase y) = fe_title y" "fe_published (erase y) = fe_published y"
    by (simp_all add: erase_def)
  with e show ?thesis unfolding same_analysis_fields_def by metis
qed

lemma map_erase_same_fields:
  "map erase xs = map erase ys \<Longrightarrow> list_all2 same_analysis_fields xs ys"
proof (induction xs arbitrary: ys)
  case Nil
  then show ?case by simp
next
  case (Cons x xs)
  then obtain y ys' where ys: "ys = y # ys'" and e: "erase x = erase y" and r: "map erase xs = map erase ys'"
    by (cases ys) auto
  from e have "same_analysis_fields x y" by (rule erase_same_fields)
  with Cons.IH [OF r] ys show ?case by simp
qed

lemma stamp_all_frozen:
  "stamp_all lib (\<lambda>_. t) k es = map (\<lambda>e. e\<lparr>fe_detected_date := Some (isoformat lib t)\<rparr>) es"
  by (induction es arbitrary: k) simp_all

lemma feed_loop_entries_frozen:
  "fv_entries (compare_feed_loop lib (\<lambda>_. t) ids es v)
     = fv_entries v @ map (\<lambda>e. if is_new_entry ids e
                                then e\<lparr>fe_detected_date := Some (isoformat lib t)\<rparr> else e) es"
  by (induction es arbitrary: v) (auto simp: Let_def is_new_entry_def)

lemma filter_stamped:
  "filter (is_new_entry ids)
      (map (\<lambda>e. if is_new_entry ids e then e\<lparr>fe_detected_date := d\<rparr> else e) es)
     = map (\<lambda>e. e\<lparr>fe_detected_date := d\<rparr>) (filter (is_new_entry ids) es)"
  by (induction es) simp_all

lemma second_run_frozen:
  "fst (compare_feed_entries lib (\<lambda>_. t) n2 old
          (fst (snd (compare_feed_entries lib (\<lambda>_. t) n1 old entries))))
     = fst (compare_feed_entries lib (\<lambda>_. t) n1 old entries)"
proof (rule changes.equality)
  let ?ids = "old_entries_dict old"
  let ?left = "fst (snd (compare_feed_entries lib (\<lambda>_. t) n1 old entries))"
  let ?stamp = "\<lambda>e. e\<lparr>fe_detected_date := Some (isoformat lib t)\<rparr>"
  have left: "?left = map (\<lambda>e. if is_new_entry ?ids e then ?stamp e else e) entries"
    by (simp add: compare_feed_entries_def Let_def feed_loop_entries_frozen)
  have f: "filter (is_new_entry ?ids) ?left = map ?stamp (filter (is_new_entry ?ids) entries)"
    unfolding left by (rule filter_stamped)
  show "new_entries (fst (compare_feed_entries lib (\<lambda>_. t) n2 old ?left))
          = new_entries (fst (compare_feed_entries lib (\<lambda>_. t) n1 old entries))"
    unfolding feed_new_entries f stamp_all_frozen by simp
  show "total_new (fst (compare_feed_entries lib (\<lambda>_. t) n2 old ?left))
          = total_new (fst (compare_feed_entries lib (\<lambda>_. t) n1 old entries))"
    unfolding feed_total_new f by simp
  have "list_all2 same_analysis_fields ?left entries"
    by (rule map_erase_same_fields) (rule feed_entries_erase)
  then show "cleanup_analysis (fst (compare_feed_entries lib (\<lambda>_. t) n2 old ?left))
          = cleanup_analysis (fst (compare_feed_entries lib (\<lambda>_. t) n1 old entries))"
    unfolding feed_cleanup_analysis by (rule analyze_entries_cong)
qed simp

text \<open>
  Claim C9, as amended. The repository reconciler reads no clock and writes to neither
  argument: its output is a function of the two snapshots, and of the previous one as a
  dictionary only (the order of its items does not matter). The feed reconciler reads the
  clock and writes \<open>detected_date\<close> into the new entries of its argument. Whatever the clock
  reads, \<open>total_new\<close> and the new entries up to their \<open>detected_date\<close> are the same, also in a
  second run on the arguments as the first run left them; and when the clock reads the same
  time throughout, that second run returns the same changes as the first.
\<close>

theorem reconciliation_determined_by_snapshots:
  assumes "map_of previous1 = map_of previous2"
  shows "compare_file_metadata previous1 current = compare_file_metadata previous2 current
       \<and> total_new (fst (compare_feed_entries lib1 clk1 n1 old entries))
           = total_new (fst (compare_feed_entries lib2 clk2 n2 old entries))
       \<and> map erase (new_entries (fst (compare_feed_entries lib1 clk1 n1 old entries)))
           = map erase (new_entries (fst (compare_feed_entries lib2 clk2 n2 old entries)))
       \<and> total_new (fst (compare_feed_entries lib2 clk2 n2 old
             (fst (snd (compare_feed_entries lib1 clk1 n1 old entries)))))
           = total_new (fst (compare_feed_entries lib1 clk1 n1 old entries))
       \<and> map erase (new_entries (fst (compare_feed_entries lib2 clk2 n2 old
             (fst (snd (compare_feed_entries lib1 clk1 n1 old entries))))))
           = map erase (new_entries (fst (compare_feed_entries lib1 clk1 n1 old entries)))
       \<and> fst (compare_feed_entries lib1 (\<lambda>_. t) n2 old
             (fst (snd (compare_feed_entries lib1 (\<lambda>_. t) n1 old entries))))
           = fst (compare_feed_entries lib1 (\<lambda>_. t) n1 old entries)"
proof -
  let ?ids = "old_entries_dict old"
  let ?left = "fst (snd (compare_feed_entries lib1 clk1 n1 old entries))"
  have r: "compare_file_metadata previous1 current = compare_file_metadata previous2 current"
    by (rule compare_file_metadata_previous) (simp add: assms)
  have a: "total_new (fst (compare_feed_entries lib1 clk1 n1 old entries))
           = total_new (fst (compare_feed_entries lib2 clk2 n2 old entries))"
    by (simp add: feed_total_new)
  have b: "map erase (new_entries (fst (compare_feed_entries lib1 clk1 n1 old entries)))
           = map erase (new_entries (fst (compare_feed_entries lib2 clk2 n2 old entries)))"
    by (simp add: feed_new_entries_erase)
  have e: "map erase (filter (is_new_entry ?ids) ?left) = map erase (filter (is_new_entry ?ids) entries)"
    by (rule filter_erase_cong) (rule feed_entries_erase)
  have d: "map erase (new_entries (fst (compare_feed_entries lib2 clk2 n2 old ?left)))
           = map erase (new_entries (fst (compare_feed_entries lib1 clk1 n1 old entries)))"
    unfolding feed_new_entries_erase by (rule e)
  have "length (map erase (filter (is_new_entry ?ids) ?left))
          = length (map erase (filter (is_new_entry ?ids) entries))"
    using e by simp
  then have c: "total_new (fst (compare_feed_entries lib2 clk2 n2 old ?left))
           = total_new (fst (compare_feed_entries lib1 clk1 n1 old entries))"
    by (simp add: feed_total_new)
  note f = second_run_frozen [of lib1 t n2 old n1 entries]
  from r a b c d f show ?thesis by (intro conjI)
qed

theorem reconciliation_determined_by_snapshots_witness:
  "map_of example_previous = map_of (rev example_previous)
   \<and> example_previous \<noteq> rev example_previous
   \<and> compare_file_metadata example_previous example_current
       = compare_file_metadata (rev example_previous) example_current"
proof -
  have m: "map_of example_previous = map_of (rev example_previous)"
    by (rule ext) (simp add: example_previous_def)
  have n: "example_previous \<noteq> rev example_previous"
    by (simp add: example_previous_def)
  from reconciliation_determined_by_snapshots [OF m, of example_current] m n
  show ?thesis by simp
qed

text \<open>
  The claim as stated fails for the feed reconciler: the first run on an empty previous
  list and one entry reads the clock twice; a second run on the same two arguments, begun
  at the third reading, returns other changes (another \<open>detected_date\<close>).
\<close>

theorem feed_reconciler_clock_counterexample:
  "snd (snd (compare_feed_entries example_lib example_clock 0 [] [example_entry ''x'' ''H1''])) = 2
   \<and> map fe_detected_date (new_entries (fst (compare_feed_entries example_lib example_clock 0
         [] [example_entry ''x'' ''H1'']))) = [Some ''2024-06-01T00:00:01'']
   \<and> map fe_detected_date (new_entries (fst (compare_feed_entries example_lib example_clock 2
         [] [example_entry ''x'' ''H1'']))) = [Some ''2024-06-01T00:00:03'']
   \<and> fst (compare_feed_entries example_lib example_clock 0 [] [example_entry ''x'' ''H1''])
       \<noteq> fst (compare_feed_entries example_lib example_clock 2 [] [example_entry ''x'' ''H1''])"
proof -
  have d: "old_entries_dict [] = []"
    by (simp add: old_entries_dict_def List.map_filter_def)
  have n: "is_new_entry [] (example_entry ''x'' ''H1'')"
    by (simp add: is_new_entry_def example_entry_def get_str_def)
  have g: "get_str (fe_id (example_entry ''x'' ''H1'')) = ''x''"
    by (simp add: example_entry_def get_str_def)
  have k: "snd (snd (compare_feed_entries example_lib example_clock 0 [] [example_entry ''x'' ''H1''])) = 2"
    by (simp add: compare_feed_entries_def Let_def d g)
  have i1: "isoformat example_lib (example_clock (Suc 0)) = ''2024-06-01T00:00:01''"
    by (simp add: example_lib_def example_clock_def)
  have i3: "isoformat example_lib (example_clock 3) = ''2024-06-01T00:00:03''"
    by (simp add: example_lib_def example_clock_def)
  have a: "map fe_detected_date (new_entries (fst (compare_feed_entries example_lib example_clock 0
         [] [example_entry ''x'' ''H1'']))) = [Some ''2024-06-01T00:00:01'']"
    by (simp add: feed_new_entries d n i1)
  have b: "map fe_detected_date (new_entries (fst (compare_feed_entries example_lib example_clock 2
         [] [example_entry ''x'' ''H1'']))) = [Some ''2024-06-01T00:00:03'']"
    by (simp add: feed_new_entries d n i3)
  have c: "fst (compare_feed_entries example_lib example_clock 0 [] [example_entry ''x'' ''H1''])
       \<noteq> fst (compare_feed_entries example_lib example_clock 2 [] [example_entry ''x'' ''H1''])"
  proof
    assume "fst (compare_feed_entries example_lib example_clock 0 [] [example_entry ''x'' ''H1''])
       = fst (compare_feed_entries example_lib example_clock 2 [] [example_entry ''x'' ''H1''])"
    then have "map fe_detected_date (new_entries (fst (compare_feed_entries example_lib example_clock 0
         [] [example_entry ''x'' ''H1''])))
       = map fe_detected_date (new_entries (fst (compare_feed_entries example_lib example_clock 2
         [] [example_entry ''x'' ''H1''])))"
      by simp
    then show False unfolding a b by simp
  qed
  from k a b c show ?thesis by (intro conjI)
qed

section \<open>The retention sweeper (\<open>cleanup_content.py\<close>)\<close>

text \<open>
  The content directory as the sweeper sees it: the two JSON files, whether each can be
  opened for writing, and the files under \<open>repo-content/files\<close>. A path there is a regular
  file with its text, or something that exists and that \<open>unlink\<close> refuses (a directory, a
  file in a read-only directory).
\<close>

datatype file_node = RegularFile string | Undeletable

record content_dir =
  files_data_json :: "snapshot stored"
  files_data_writable :: bool
  content_files :: "string \<rightharpoonup> file_node"
  feed_entries_json :: "feed_entry list stored"
  feed_entries_writable :: bool

text \<open>\<open>days_old\<close> of a repository candidate is a number of days or the text \<open>"unknown"\<close>.\<close>

datatype days_old = Days int | Unknown

record repo_candidate =
  rc_path :: string
  rc_size :: int
  rc_added_date :: string
  rc_days_old :: days_old

record rss_candidate =
  sc_id :: string
  sc_title :: string
  sc_published :: string
  sc_detected_date :: string
  sc_days_old :: int

subsection \<open>\<open>analyze_repo_files_for_cleanup\<close>\<close>

record repo_vars =
  rv_cleanup_candidates :: "repo_candidate list"
  rv_total_files :: nat
  rv_total_size :: int
  rv_clock :: nat

definition unknown_candidate :: "string \<Rightarrow> int \<Rightarrow> repo_candidate" where
  "unknown_candidate file_path file_size =
     \<lparr>rc_path = file_path, rc_size = file_size, rc_added_date = ''unknown'', rc_days_old = Unknown\<rparr>"

text \<open>
  The body of the loop. \<open>fromisoformat\<close> raising \<open>ValueError\<close> and the comparison raising
  \<open>TypeError\<close> both end in the \<open>except\<close> branch, which appends the candidate of unknown
  age. The age of a dated candidate is taken from a new reading of the clock.
\<close>

definition analyze_repo_item ::
  "pylib \<Rightarrow> clock \<Rightarrow> int \<Rightarrow> string \<Rightarrow> file_metadata \<Rightarrow> repo_vars \<Rightarrow> repo_vars" where
  "analyze_repo_item lib clk cutoff_date file_path file_info v =
     (let file_size = get_size file_info;
          v1 = v\<lparr>rv_total_files := rv_total_files v + 1,
                 rv_total_size := rv_total_size v + file_size\<rparr>;
          failed = v1\<lparr>rv_cleanup_candidates :=
                        rv_cleanup_candidates v1 @ [unknown_candidate file_path file_size]\<rparr>
      in case fm_added_date file_info of
           None \<Rightarrow> v1
         | Some added_date_str \<Rightarrow>
             if added_date_str = [] then v1
             else (case fromisoformat lib (replace_Z added_date_str) of
                     None \<Rightarrow> failed
                   | Some added_date \<Rightarrow>
                       (case datetime_less added_date cutoff_date of
                          Inl _ \<Rightarrow> failed
                        | Inr False \<Rightarrow> v1
                        | Inr True \<Rightarrow>
                            (case days_since (clk (rv_clock v1)) added_date of
                               Inl _ \<Rightarrow> failed\<lparr>rv_clock := Suc (rv_clock v1)\<rparr>
                             | Inr days \<Rightarrow>
                                 v1\<lparr>rv_cleanup_candidates :=
                                      rv_cleanup_candidates v1 @
                                        [\<lparr>rc_path = file_path, rc_size = file_size,
                                          rc_added_date = added_date_str,
                                          rc_days_old = Days days\<rparr>],
                                    rv_clock := Suc (rv_clock v1)\<rparr>))))"

fun analyze_repo_loop :: "pylib \<Rightarrow> clock \<Rightarrow> int \<Rightarrow> snapshot \<Rightarrow> repo_vars \<Rightarrow> repo_vars" where
  "analyze_repo_loop lib clk cutoff_date [] v = v"
| "analyze_repo_loop lib clk cutoff_date ((file_path, file_info) # rest) v =
     analyze_repo_loop lib clk cutoff_date rest
       (analyze_repo_item lib clk cutoff_date file_path file_info v)"

text \<open>
  The result is the triple the function returns and the counter of the clock; \<open>Inl\<close> is
  an exception that leaves the function (the \<open>OverflowError\<close> of the cutoff date).
\<close>

definition analyze_repo_files_for_cleanup ::
  "pylib \<Rightarrow> clock \<Rightarrow> nat \<Rightarrow> content_dir \<Rightarrow> int
     \<Rightarrow> py_error + ((repo_candidate list \<times> nat \<times> int) \<times> nat)" where
  "analyze_repo_files_for_cleanup lib clk n repo_content_path age_threshold_days =
     (case files_data_json repo_content_path of
        Missing \<Rightarrow> Inr (([], 0, 0), n)
      | Corrupt _ \<Rightarrow> Inr (([], 0, 0), n)
      | Stored files_data \<Rightarrow>
          (case cutoff_date_of (clk n) age_threshold_days of
             Inl e \<Rightarrow> Inl e
           | Inr cutoff_date \<Rightarrow>
               (let v = analyze_repo_loop lib clk cutoff_date files_data
                          \<lparr>rv_cleanup_candidates = [], rv_total_files = 0,
                           rv_total_size = 0, rv_clock = Suc n\<rparr>
                in Inr ((rv_cleanup_candidates v, rv_total_files v, rv_total_size v),
                        rv_clock v))))"

subsection \<open>\<open>parse_entry_date\<close> and \<open>analyze_rss_entries_for_cleanup\<close>\<close>

fun first_format :: "pylib \<Rightarrow> string \<Rightarrow> string list \<Rightarrow> datetime option" where
  "first_format lib published [] = None"
| "first_format lib published (fmt # fmts) =
     (case strptime lib published fmt of
        Some d \<Rightarrow> Some d
      | None \<Rightarrow> first_format lib published fmts)"

definition parse_entry_date :: "pylib \<Rightarrow> string \<Rightarrow> string \<Rightarrow> datetime option" where
  "parse_entry_date lib published detected_date =
     (case (if published \<noteq> [] then first_format lib published date_formats else None) of
        Some d \<Rightarrow> Some d
      | None \<Rightarrow>
          if detected_date \<noteq> [] then fromisoformat lib (replace_Z detected_date) else None)"

record rss_vars =
  sv_cleanup_candidates :: "rss_candidate list"
  sv_total_entries :: nat
  sv_clock :: nat

text \<open>
  The body of the loop. No \<open>except\<close> surrounds the comparison: its \<open>TypeError\<close> leaves the
  function.
\<close>

definition analyze_rss_item ::
  "pylib \<Rightarrow> clock \<Rightarrow> int \<Rightarrow> feed_entry \<Rightarrow> rss_vars \<Rightarrow> py_error + rss_vars" where
  "analyze_rss_item lib clk cutoff_date entry v =
     (let v1 = v\<lparr>sv_total_entries := sv_total_entries v + 1\<rparr>;
          published = get_str (fe_published entry);
          detected_date = get_str (fe_detected_date entry)
      in case parse_entry_date lib published detected_date of
           None \<Rightarrow> Inr v1
         | Some entry_date \<Rightarrow>
             (case datetime_less entry_date cutoff_date of
                Inl e \<Rightarrow> Inl e
              | Inr False \<Rightarrow> Inr v1
              | Inr True \<Rightarrow>
                  (case days_since (clk (sv_clock v1)) entry_date of
                     Inl e \<Rightarrow> Inl e
                   | Inr days \<Rightarrow>
                       Inr (v1\<lparr>sv_cleanup_candidates :=
                                  sv_cleanup_candidates v1 @
                                    [\<lparr>sc_id = get_str (fe_id entry),
                                      sc_title = take 50 (get_str (fe_title entry)),
                                      sc_published = published,
                                      sc_detected_date = detected_date,
                                      sc_days_old = days\<rparr>],
                                sv_clock := Suc (sv_clock v1)\<rparr>))))"

fun analyze_rss_loop ::
  "pylib \<Rightarrow> clock \<Rightarrow> int \<Rightarrow> feed_entry list \<Rightarrow> rss_vars \<Rightarrow> py_error + rss_vars" where
  "analyze_rss_loop lib clk cutoff_date [] v = Inr v"
| "analyze_rss_loop lib clk cutoff_date (entry # rest) v =
     (case analyze_rss_item lib clk cutoff_date entry v of
        Inl e \<Rightarrow> Inl e
      | Inr v' \<Rightarrow> analyze_rss_loop lib clk cutoff_date rest v')"

definition analyze_rss_entries_for_cleanup ::
  "pylib \<Rightarrow> clock \<Rightarrow> nat \<Rightarrow> content_dir \<Rightarrow> int
     \<Rightarrow> py_error + ((rss_candidate list \<times> nat) \<times> nat)" where
  "analyze_rss_entries_for_cleanup lib clk n rss_content_path age_threshold_days =
     (case feed_entries_json rss_content_path of
        Missing \<Rightarrow> Inr (([], 0), n)
      | Corrupt _ \<Rightarrow> Inr (([], 0), n)
      | Stored entries_data \<Rightarrow>
          (case cutoff_date_of (clk n) age_threshold_days of
             Inl e \<Rightarrow> Inl e
           | Inr cutoff_date \<Rightarrow>
               (case analyze_rss_loop lib clk cutoff_date entries_data
                       \<lparr>sv_cleanup_candidates = [], sv_total_entries = 0, sv_clock = Suc n\<rparr> of
                  Inl e \<Rightarrow> Inl e
                | Inr v \<Rightarrow> Inr ((sv_cleanup_candidates v, sv_total_entries v), sv_clock v))))"

subsection \<open>\<open>cleanup_repo_files\<close>, \<open>cleanup_rss_entries\<close>, \<open>perform_cleanup\<close> and \<open>main\<close>\<close>

text \<open>What \<open>json.load\<close> gives inside a \<open>try\<close> whose \<open>except\<close> puts a default in its place.\<close>

definition load_or :: "'a \<Rightarrow> 'a stored \<Rightarrow> 'a" where
  "load_or default_value file = (case file of Stored x \<Rightarrow> x | Missing \<Rightarrow> default_value | Corrupt _ \<Rightarrow> default_value)"

text \<open>
  The state of the loop of \<open>cleanup_repo_files\<close>: the two results, the dictionary
  \<open>files_data\<close> in memory, and the files on disk.
\<close>

record cleanup_vars =
  cl_cleaned_files :: "string list"
  cl_total_size_freed :: int
  cl_files_data :: snapshot
  cl_content_files :: "string \<rightharpoonup> file_node"

text \<open>
  The body of the loop, with \<open>_delete_file\<close> inside: \<open>unlink\<close> of a regular file removes it
  and counts it; an \<open>unlink\<close> that raises is reported and counts nothing; in both cases, and
  when no file exists, the entry leaves \<open>files_data\<close>.
\<close>

definition cleanup_repo_step :: "bool \<Rightarrow> repo_candidate \<Rightarrow> cleanup_vars \<Rightarrow> cleanup_vars" where
  "cleanup_repo_step dry_run candidate v =
     (let file_path = rc_path candidate; file_size = rc_size candidate
      in if \<not> dry_run
         then (let v1 = (case cl_content_files v file_path of
                           None \<Rightarrow> v
                         | Some Undeletable \<Rightarrow> v
                         | Some (RegularFile _) \<Rightarrow>
                             v\<lparr>cl_content_files := (cl_content_files v)(file_path := None),
                               cl_cleaned_files := cl_cleaned_files v @ [file_path],
                               cl_total_size_freed := cl_total_size_freed v + file_size\<rparr>)
               in v1\<lparr>cl_files_data := filter (\<lambda>kv. fst kv \<noteq> file_path) (cl_files_data v1)\<rparr>)
         else v)"

fun cleanup_repo_loop :: "bool \<Rightarrow> repo_candidate list \<Rightarrow> cleanup_vars \<Rightarrow> cleanup_vars" where
  "cleanup_repo_loop dry_run [] v = v"
| "cleanup_repo_loop dry_run (candidate # rest) v =
     cleanup_repo_loop dry_run rest (cleanup_repo_step dry_run candidate v)"

definition update_files_data :: "content_dir \<Rightarrow> snapshot \<Rightarrow> content_dir" where
  "update_files_data fs files_data =
     (if files_data_writable fs then fs\<lparr>files_data_json := Stored files_data\<rparr> else fs)"

definition cleanup_repo_files ::
  "content_dir \<Rightarrow> repo_candidate list \<Rightarrow> bool \<Rightarrow> (string list \<times> int) \<times> content_dir" where
  "cleanup_repo_files repo_content_path repo_candidates dry_run =
     (let v = cleanup_repo_loop dry_run repo_candidates
                \<lparr>cl_cleaned_files = [], cl_total_size_freed = 0,
                 cl_files_data = load_or [] (files_data_json repo_content_path),
                 cl_content_files = content_files repo_content_path\<rparr>;
          fs1 = repo_content_path\<lparr>content_files := cl_content_files v\<rparr>;
          fs2 = (if \<not> dry_run \<and> cl_cleaned_files v \<noteq> []
                 then update_files_data fs1 (cl_files_data v) else fs1)
      in ((cl_cleaned_files v, cl_total_size_freed v), fs2))"

text \<open>
  \<open>cleaned_entries\<close> is \<open>list(candidate_ids)\<close>, the elements of a set in no order that
  Python fixes: it is kept as the set.
\<close>

definition cleanup_rss_entries ::
  "content_dir \<Rightarrow> rss_candidate list \<Rightarrow> bool \<Rightarrow> string set \<times> content_dir" where
  "cleanup_rss_entries rss_content_path rss_candidates dry_run =
     (let entries_data = load_or [] (feed_entries_json rss_content_path);
          candidate_ids = set (map sc_id rss_candidates)
      in if \<not> dry_run
         then (let updated_entries =
                     filter (\<lambda>entry. get_str (fe_id entry) \<notin> candidate_ids) entries_data
               in (candidate_ids,
                   if feed_entries_writable rss_content_path
                   then rss_content_path\<lparr>feed_entries_json := Stored updated_entries\<rparr>
                   else rss_content_path))
         else ({}, rss_content_path))"

definition perform_cleanup ::
  "content_dir \<Rightarrow> repo_candidate list \<Rightarrow> rss_candidate list \<Rightarrow> bool
     \<Rightarrow> (string list \<times> string set \<times> int) \<times> content_dir" where
  "perform_cleanup fs repo_candidates rss_candidates dry_run =
     (let ((cleaned_files, total_size_freed), fs1) =
            (if repo_candidates \<noteq> [] then cleanup_repo_files fs repo_candidates dry_run
             else (([], 0), fs));
          (cleaned_entries, fs2) =
            (if rss_candidates \<noteq> [] then cleanup_rss_entries fs1 rss_candidates dry_run
             else ({}, fs1))
      in ((cleaned_files, cleaned_entries, total_size_freed), fs2))"

text \<open>
  \<open>main\<close> on an existing content directory (without one it returns at once): the two
  analyses, then \<open>perform_cleanup\<close> when one of them found a candidate. The result is the
  exception that ended the run, if any, and the content directory after the run; the
  analyses only read.
\<close>

definition main_cleanup ::
  "pylib \<Rightarrow> clock \<Rightarrow> nat \<Rightarrow> content_dir \<Rightarrow> int \<Rightarrow> bool \<Rightarrow> py_error option \<times> content_dir" where
  "main_cleanup lib clk n fs age_threshold_days dry_run =
     (case analyze_repo_files_for_cleanup lib clk n fs age_threshold_days of
        Inl e \<Rightarrow> (Some e, fs)
      | Inr ((repo_candidates, _, total_repo_size), n1) \<Rightarrow>
          (case analyze_rss_entries_for_cleanup lib clk n1 fs age_threshold_days of
             Inl e \<Rightarrow> (Some e, fs)
           | Inr ((rss_candidates, total_rss_entries), n2) \<Rightarrow>
               if repo_candidates = [] \<and> rss_candidates = [] then (None, fs)
               else (None, snd (perform_cleanup fs repo_candidates rss_candidates dry_run))))"

section \<open>Properties of the retention sweeper\<close>

lemma cleanup_repo_loop_dry_run: "cleanup_repo_loop True candidates v = v"
  by (induction candidates arbitrary: v) (simp_all add: cleanup_repo_step_def)

subsection \<open>Which items the analyses report\<close>

definition repo_is_candidate :: "pylib \<Rightarrow> int \<Rightarrow> file_metadata \<Rightarrow> bool" where
  "repo_is_candidate lib cutoff_date file_info =
     (case fm_added_date file_info of
        None \<Rightarrow> False
      | Some s \<Rightarrow>
          s \<noteq> [] \<and>
          (case fromisoformat lib (replace_Z s) of
             None \<Rightarrow> True
           | Some (Naive t) \<Rightarrow> t < cutoff_date
           | Some (Aware _) \<Rightarrow> True))"

lemma analyze_repo_item_paths:
  "map rc_path (rv_cleanup_candidates (analyze_repo_item lib clk cutoff file_path file_info v))
     = map rc_path (rv_cleanup_candidates v)
       @ (if repo_is_candidate lib cutoff file_info then [file_path] else [])"
  by (simp add: analyze_repo_item_def repo_is_candidate_def Let_def unknown_candidate_def
        datetime_less_def days_since_def
      split: option.splits datetime.splits sum.splits bool.splits)

lemma analyze_repo_loop_paths:
  "map rc_path (rv_cleanup_candidates (analyze_repo_loop lib clk cutoff files_data v))
     = map rc_path (rv_cleanup_candidates v)
       @ map fst (filter (\<lambda>kv. repo_is_candidate lib cutoff (snd kv)) files_data)"
  by (induction files_data arbitrary: v) (auto simp: analyze_repo_item_paths)

lemma analyze_repo_item_counts:
  "rv_total_files (analyze_repo_item lib clk cutoff file_path file_info v) = Suc (rv_total_files v)"
  "rv_total_size (analyze_repo_item lib clk cutoff file_path file_info v)
     = rv_total_size v + get_size file_info"
  by (simp_all add: analyze_repo_item_def Let_def
      split: option.splits datetime.splits sum.splits bool.splits)

lemma analyze_repo_loop_counts:
  "rv_total_files (analyze_repo_loop lib clk cutoff files_data v)
     = rv_total_files v + length files_data"
  "rv_total_size (analyze_repo_loop lib clk cutoff files_data v)
     = rv_total_size v + sum_list (map (get_size \<circ> snd) files_data)"
  by (induction files_data arbitrary: v) (auto simp: analyze_repo_item_counts)

lemma cutoff_in_range:
  assumes "\<bar>thr\<bar> \<le> 999999999" and "0 \<le> now - thr * day_us" and "now - thr * day_us < max_ticks"
  shows "cutoff_date_of now thr = Inr (now - thr * day_us)"
  using assms by (simp add: cutoff_date_of_def timedelta_days_def minus_timedelta_def Let_def)

lemma analyze_repo_result:
  assumes "files_data_json fs = Stored files_data"
    and "cutoff_date_of (clk n) thr = Inr cutoff"
  shows "\<exists>cands n'. analyze_repo_files_for_cleanup lib clk n fs thr
            = Inr ((cands, length files_data, sum_list (map (get_size \<circ> snd) files_data)), n')
          \<and> map rc_path cands
              = map fst (filter (\<lambda>kv. repo_is_candidate lib cutoff (snd kv)) files_data)
          \<and> cands = rv_cleanup_candidates (analyze_repo_loop lib clk cutoff files_data
                \<lparr>rv_cleanup_candidates = [], rv_total_files = 0, rv_total_size = 0, rv_clock = Suc n\<rparr>)"
  using assms
  by (simp add: analyze_repo_files_for_cleanup_def Let_def analyze_repo_loop_paths
        analyze_repo_loop_counts)

text \<open>
  A feed entry is identified in the list of candidates by its id with its two dates;
  \<open>not_aware\<close> holds of an entry whose date does not parse to an aware datetime.
\<close>

definition rss_is_candidate :: "pylib \<Rightarrow> int \<Rightarrow> feed_entry \<Rightarrow> bool" where
  "rss_is_candidate lib cutoff_date entry =
     (case parse_entry_date lib (get_str (fe_published entry)) (get_str (fe_detected_date entry)) of
        Some (Naive t) \<Rightarrow> t < cutoff_date
      | _ \<Rightarrow> False)"

definition not_aware :: "pylib \<Rightarrow> feed_entry \<Rightarrow> bool" where
  "not_aware lib entry =
     (case parse_entry_date lib (get_str (fe_published entry)) (get_str (fe_detected_date entry)) of
        Some (Aware _) \<Rightarrow> False
      | _ \<Rightarrow> True)"

definition candidate_key :: "rss_candidate \<Rightarrow> string \<times> string \<times> string" where
  "candidate_key c = (sc_id c, sc_published c, sc_detected_date c)"

definition entry_key :: "feed_entry \<Rightarrow> string \<times> string \<times> string" where
  "entry_key e = (get_str (fe_id e), get_str (fe_published e), get_str (fe_detected_date e))"

lemma analyze_rss_item_keys:
  assumes "not_aware lib entry"
  shows "\<exists>v'. analyze_rss_item lib clk cutoff entry v = Inr v'
           \<and> map candidate_key (sv_cleanup_candidates v')
               = map candidate_key (sv_cleanup_candidates v)
                 @ (if rss_is_candidate lib cutoff entry then [entry_key entry] else [])
           \<and> sv_total_entries v' = Suc (sv_total_entries v)"
  using assms
  by (auto simp: analyze_rss_item_def not_aware_def rss_is_candidate_def Let_def
        candidate_key_def entry_key_def datetime_less_def days_since_def
      split: option.splits datetime.splits)

lemma analyze_rss_loop_keys:
  assumes "\<forall>e \<in> set entries. not_aware lib e"
  shows "\<exists>v'. analyze_rss_loop lib clk cutoff entries v = Inr v'
           \<and> map candidate_key (sv_cleanup_candidates v')
               = map candidate_key (sv_cleanup_candidates v)
                 @ map entry_key (filter (rss_is_candidate lib cutoff) entries)
           \<and> sv_total_entries v' = sv_total_entries v + length entries"
  using assms
proof (induction entries arbitrary: v)
  case Nil
  then show ?case by simp
next
  case (Cons e entries)
  from Cons.prems have "not_aware lib e" by simp
  from analyze_rss_item_keys [OF this, of clk cutoff v]
  obtain v1 where v1: "analyze_rss_item lib clk cutoff e v = Inr v1"
    "map candidate_key (sv_cleanup_candidates v1)
       = map candidate_key (sv_cleanup_candidates v)
         @ (if rss_is_candidate lib cutoff e then [entry_key e] else [])"
    "sv_total_entries v1 = Suc (sv_total_entries v)"
    by blast
  from Cons.prems have "\<forall>e \<in> set entries. not_aware lib e" by simp
  from Cons.IH [OF this, of v1]
  obtain v' where v': "analyze_rss_loop lib clk cutoff entries v1 = Inr v'"
    "map candidate_key (sv_cleanup_candidates v')
       = map candidate_key (sv_cleanup_candidates v1)
         @ map entry_key (filter (rss_is_candidate lib cutoff) entries)"
    "sv_total_entries v' = sv_total_entries v1 + length entries"
    by blast
  show ?case
    using v1 v' by simp
qed

lemma analyze_rss_result:
  assumes "feed_entries_json fs = Stored entries_data"
    and "cutoff_date_of (clk n) thr = Inr cutoff"
    and "\<forall>e \<in> set entries_data. not_aware lib e"
  shows "\<exists>cands n'. analyze_rss_entries_for_cleanup lib clk n fs thr
            = Inr ((cands, length entries_data), n')
          \<and> map candidate_key cands
              = map entry_key (filter (rss_is_candidate lib cutoff) entries_data)"
proof -
  from analyze_rss_loop_keys [OF assms(3), of clk cutoff
      "\<lparr>sv_cleanup_candidates = [], sv_total_entries = 0, sv_clock = Suc n\<rparr>"]
  obtain v' where v': "analyze_rss_loop lib clk cutoff entries_data
        \<lparr>sv_cleanup_candidates = [], sv_total_entries = 0, sv_clock = Suc n\<rparr> = Inr v'"
    "map candidate_key (sv_cleanup_candidates v')
       = map entry_key (filter (rss_is_candidate lib cutoff) entries_data)"
    "sv_total_entries v' = length entries_data"
    by auto
  show ?thesis
    using assms(1,2) v' by (simp add: analyze_rss_entries_for_cleanup_def)
qed

lemma rss_is_candidate_key:
  "entry_key x = entry_key y \<Longrightarrow> rss_is_candidate lib cutoff x = rss_is_candidate lib cutoff y"
  by (simp add: entry_key_def rss_is_candidate_def)

lemma rss_candidate_iff:
  assumes "map candidate_key cands = map entry_key (filter (rss_is_candidate lib cutoff) entries_data)"
    and "e \<in> set entries_data"
  shows "(\<exists>c \<in> set cands. candidate_key c = entry_key e) = rss_is_candidate lib cutoff e"
proof -
  have s: "candidate_key ` set cands = entry_key ` set (filter (rss_is_candidate lib cutoff) entries_data)"
    using assms(1) by (metis set_map)
  show ?thesis
  proof
    assume "\<exists>c \<in> set cands. candidate_key c = entry_key e"
    then have "entry_key e \<in> candidate_key ` set cands" by (metis imageI)
    with s obtain y where y: "y \<in> set entries_data" "rss_is_candidate lib cutoff y" "entry_key y = entry_key e"
      by auto
    from y(3) y(2) show "rss_is_candidate lib cutoff e"
      using rss_is_candidate_key by blast
  next
    assume "rss_is_candidate lib cutoff e"
    with assms(2) have "entry_key e \<in> entry_key ` set (filter (rss_is_candidate lib cutoff) entries_data)"
      by simp
    with s have "entry_key e \<in> candidate_key ` set cands" by simp
    then show "\<exists>c \<in> set cands. candidate_key c = entry_key e" by (metis imageE)
  qed
qed

subsection \<open>Example data\<close>

text \<open>
  Two content directories for the clock and the library of the examples above, which read
  2024-06-01T00:00:00 first: 2024-03-03 is 90 days before that reading, 2024-03-02 is 91.
\<close>

definition example_dated :: "string \<Rightarrow> int \<Rightarrow> file_metadata" where
  "example_dated d n = (example_metadata ''H'' n)\<lparr>fm_added_date := Some d\<rparr>"

definition example_detected :: "string \<Rightarrow> string \<Rightarrow> string \<Rightarrow> feed_entry" where
  "example_detected i p d =
     \<lparr>fe_id = Some i, fe_title = Some ''Release notes'', fe_link = Some ''https://example.org/post'',
      fe_published = Some p, fe_content = Some ''text'',
      fe_content_hash = Some ''H'', fe_feed_index = Some 0, fe_detected_date = Some d\<rparr>"

definition example_dir :: content_dir where
  "example_dir =
     \<lparr>files_data_json =
        Stored [(''old.md'', example_dated ''2024-03-02T00:00:00'' 120),
                (''recent.md'', example_dated ''2024-03-03T00:00:00'' 80),
                (''undated.md'', example_metadata ''H3'' 40)],
      files_data_writable = True,
      content_files = [''old.md'' \<mapsto> RegularFile ''old text'',
                       ''recent.md'' \<mapsto> RegularFile ''recent text''],
      feed_entries_json =
        Stored [example_detected ''p'' [] ''2024-03-02T00:00:00'',
                example_detected ''q'' [] ''2024-03-03T00:00:00''],
      feed_entries_writable = True\<rparr>"

definition example_dir_unparseable :: content_dir where
  "example_dir_unparseable =
     \<lparr>files_data_json = Stored [(''odd.md'', example_dated ''not a date'' 10)],
      files_data_writable = True,
      content_files = [''odd.md'' \<mapsto> RegularFile ''odd text''],
      feed_entries_json = Stored [example_detected ''r'' ''not a date'' ''neither'',
                                  example_detected ''s'' [] []],
      feed_entries_writable = True\<rparr>"

lemma example_cutoff: "cutoff_date_of 63852796800000000 90 = Inr 63845020800000000"
  by (simp add: cutoff_date_of_def timedelta_days_def minus_timedelta_def day_us_def max_ticks_def)

lemma example_replace_Z:
  "replace_Z ''2024-03-02T00:00:00'' = ''2024-03-02T00:00:00''"
  "replace_Z ''2024-03-03T00:00:00'' = ''2024-03-03T00:00:00''"
  "replace_Z ''not a date'' = ''not a date''"
  "replace_Z ''neither'' = ''neither''"
  by (simp_all add: replace_Z_def)

lemma example_fromisoformat:
  "fromisoformat example_lib ''2024-03-02T00:00:00'' = Some (Naive 63844934400000000)"
  "fromisoformat example_lib ''2024-03-03T00:00:00'' = Some (Naive 63845020800000000)"
  "fromisoformat example_lib ''not a date'' = None"
  "fromisoformat example_lib ''neither'' = None"
  by (simp_all add: example_lib_def)

lemma example_parse_entry_date:
  "parse_entry_date example_lib [] ''2024-03-02T00:00:00'' = Some (Naive 63844934400000000)"
  "parse_entry_date example_lib [] ''2024-03-03T00:00:00'' = Some (Naive 63845020800000000)"
  "parse_entry_date example_lib ''not a date'' ''neither'' = None"
  "parse_entry_date example_lib [] [] = None"
  by (simp_all add: parse_entry_date_def example_replace_Z date_formats_def example_lib_def)

lemma example_analyze_repo:
  "analyze_repo_files_for_cleanup example_lib example_clock 0 example_dir 90
     = Inr (([\<lparr>rc_path = ''old.md'', rc_size = 120, rc_added_date = ''2024-03-02T00:00:00'',
                rc_days_old = Days 91\<rparr>], 3, 240), 2)"
  by (simp add: analyze_repo_files_for_cleanup_def example_dir_def example_cutoff
        analyze_repo_item_def example_dated_def example_metadata_def get_size_def
        example_replace_Z example_fromisoformat datetime_less_def days_since_def
        example_clock_def day_us_def Let_def)

lemma example_analyze_rss:
  "analyze_rss_entries_for_cleanup example_lib example_clock 0 example_dir 90
     = Inr (([\<lparr>sc_id = ''p'', sc_title = ''Release notes'', sc_published = [],
                sc_detected_date = ''2024-03-02T00:00:00'', sc_days_old = 91\<rparr>], 2), 2)"
  by (simp add: analyze_rss_entries_for_cleanup_def example_dir_def example_cutoff
        analyze_rss_item_def example_detected_def get_str_def
        example_parse_entry_date datetime_less_def days_since_def
        example_clock_def day_us_def Let_def)

lemma example_cutoff_0: "cutoff_date_of 63852796800000000 0 = Inr 63852796800000000"
  by (simp add: cutoff_date_of_def timedelta_days_def minus_timedelta_def day_us_def max_ticks_def)

lemma example_analyze_rss_unparseable:
  "analyze_rss_entries_for_cleanup example_lib example_clock 0 example_dir_unparseable 0
     = Inr (([], 2), 1)"
  by (simp add: analyze_rss_entries_for_cleanup_def example_dir_unparseable_def example_cutoff_0
        analyze_rss_item_def example_detected_def get_str_def
        example_parse_entry_date example_clock_def Let_def)

lemma example_analyze_repo_unparseable:
  "analyze_repo_files_for_cleanup example_lib example_clock 0 example_dir_unparseable 0
     = Inr (([\<lparr>rc_path = ''odd.md'', rc_size = 10, rc_added_date = ''unknown'',
                rc_days_old = Unknown\<rparr>], 1, 10), 1)"
  by (simp add: analyze_repo_files_for_cleanup_def example_dir_unparseable_def example_cutoff_0
        analyze_repo_item_def example_dated_def example_metadata_def get_size_def
        example_replace_Z example_fromisoformat unknown_candidate_def
        example_clock_def Let_def)

lemma analyze_repo_item_mono:
  "set (rv_cleanup_candidates v)
     \<subseteq> set (rv_cleanup_candidates (analyze_repo_item lib clk cutoff file_path file_info v))"
  by (auto simp: analyze_repo_item_def Let_def
      split: option.splits datetime.splits sum.splits bool.splits)

lemma analyze_repo_loop_mono:
  "set (rv_cleanup_candidates v)
     \<subseteq> set (rv_cleanup_candidates (analyze_repo_loop lib clk cutoff files_data v))"
proof (induction files_data arbitrary: v)
  case Nil
  then show ?case by simp
next
  case (Cons kv files_data)
  obtain file_path file_info where kv: "kv = (file_path, file_info)" by (cases kv)
  show ?case
    unfolding kv
    using analyze_repo_item_mono [of v lib clk cutoff file_path file_info]
      Cons.IH [of "analyze_repo_item lib clk cutoff file_path file_info v"]
    by simp
qed

lemma analyze_repo_item_unknown:
  assumes "fm_added_date file_info = Some s" and "s \<noteq> []"
    and "fromisoformat lib (replace_Z s) = None"
  shows "unknown_candidate file_path (get_size file_info)
           \<in> set (rv_cleanup_candidates (analyze_repo_item lib clk cutoff file_path file_info v))"
  using assms by (simp add: analyze_repo_item_def Let_def)

lemma analyze_repo_loop_unknown:
  assumes "(p, info) \<in> set files_data"
    and "fm_added_date info = Some s" and "s \<noteq> []"
    and "fromisoformat lib (replace_Z s) = None"
  shows "unknown_candidate p (get_size info)
           \<in> set (rv_cleanup_candidates (analyze_repo_loop lib clk cutoff files_data v))"
  using assms(1)
proof (induction files_data arbitrary: v)
  case Nil
  then show ?case by simp
next
  case (Cons kv files_data)
  obtain file_path file_info where kv: "kv = (file_path, file_info)" by (cases kv)
  show ?case
  proof (cases "kv = (p, info)")
    case True
    then have "file_path = p" "file_info = info" using kv by simp_all
    then have "unknown_candidate p (get_size info)
        \<in> set (rv_cleanup_candidates (analyze_repo_item lib clk cutoff file_path file_info v))"
      using analyze_repo_item_unknown [OF assms(2-4), of p clk cutoff v] by simp
    then show ?thesis
      unfolding kv
      using analyze_repo_loop_mono [of "analyze_repo_item lib clk cutoff file_path file_info v"
          lib clk cutoff files_data]
      by auto
  next
    case False
    with Cons.prems have "(p, info) \<in> set files_data" by simp
    from Cons.IH [OF this] show ?thesis unfolding kv by simp
  qed
qed

subsection \<open>A dry run changes nothing\<close>

text \<open>
  Claim C4. For every content directory and every list of candidates, \<open>cleanup_repo_files\<close>,
  \<open>cleanup_rss_entries\<close> and \<open>perform_cleanup\<close> in dry-run mode return the content
  directory as it was (the snapshot files and the content files are the same) and report
  nothing as cleaned; so does a whole run of \<open>main\<close> in dry-run mode, whatever the analyses
  find.
\<close>

theorem dry_run_performs_no_mutation:
  "cleanup_repo_files fs repo_candidates True = (([], 0), fs)
   \<and> cleanup_rss_entries fs rss_candidates True = ({}, fs)
   \<and> perform_cleanup fs repo_candidates rss_candidates True = (([], {}, 0), fs)
   \<and> snd (main_cleanup lib clk n fs age_threshold_days True) = fs"
proof -
  have a: "\<And>cands. cleanup_repo_files fs cands True = (([], 0), fs)"
    by (simp add: cleanup_repo_files_def cleanup_repo_loop_dry_run)
  have b: "\<And>cands. cleanup_rss_entries fs cands True = ({}, fs)"
    by (simp add: cleanup_rss_entries_def)
  have c: "\<And>rc sc. perform_cleanup fs rc sc True = (([], {}, 0), fs)"
    by (simp add: perform_cleanup_def a b)
  have d: "snd (main_cleanup lib clk n fs age_threshold_days True) = fs"
    by (simp add: main_cleanup_def c split: sum.splits prod.splits)
  from a b c d show ?thesis by (intro conjI)
qed

theorem dry_run_performs_no_mutation_witness:
  "cleanup_repo_files example_dir
      [\<lparr>rc_path = ''old.md'', rc_size = 120, rc_added_date = ''2024-03-02T00:00:00'',
        rc_days_old = Days 91\<rparr>] True = (([], 0), example_dir)
   \<and> snd (main_cleanup example_lib example_clock 0 example_dir 90 True) = example_dir
   \<and> fst (cleanup_repo_files example_dir
      [\<lparr>rc_path = ''old.md'', rc_size = 120, rc_added_date = ''2024-03-02T00:00:00'',
        rc_days_old = Days 91\<rparr>] False) = ([''old.md''], 120)
   \<and> content_files example_dir ''old.md'' = Some (RegularFile ''old text'')
   \<and> content_files (snd (cleanup_repo_files example_dir
      [\<lparr>rc_path = ''old.md'', rc_size = 120, rc_added_date = ''2024-03-02T00:00:00'',
        rc_days_old = Days 91\<rparr>] False)) ''old.md'' = None
   \<and> files_data_json (snd (cleanup_repo_files example_dir
      [\<lparr>rc_path = ''old.md'', rc_size = 120, rc_added_date = ''2024-03-02T00:00:00'',
        rc_days_old = Days 91\<rparr>] False))
       = Stored [(''recent.md'', example_dated ''2024-03-03T00:00:00'' 80),
                 (''undated.md'', example_metadata ''H3'' 40)]"
proof -
  let ?c = "\<lparr>rc_path = ''old.md'', rc_size = 120, rc_added_date = ''2024-03-02T00:00:00'',
        rc_days_old = Days 91\<rparr>"
  have d: "cleanup_repo_files example_dir [?c] False
      = (([''old.md''], 120),
         example_dir\<lparr>content_files := [''recent.md'' \<mapsto> RegularFile ''recent text''],
                      files_data_json := Stored [(''recent.md'', example_dated ''2024-03-03T00:00:00'' 80),
                                                (''undated.md'', example_metadata ''H3'' 40)]\<rparr>)"
    by (simp add: cleanup_repo_files_def cleanup_repo_step_def example_dir_def load_or_def
          update_files_data_def Let_def fun_upd_twist)
  have e: "content_files example_dir ''old.md'' = Some (RegularFile ''old text'')"
    by (simp add: example_dir_def)
  from dry_run_performs_no_mutation [of example_dir "[?c]" "[]" example_lib example_clock 0 90] d e
  show ?thesis by simp
qed

subsection \<open>The age threshold\<close>

text \<open>
  The age in whole days: \<open>(now - date).days\<close> is the floor of the duration. A duration is
  more than \<open>thr\<close> days exactly when its whole days are more than \<open>thr\<close>, or equal to
  \<open>thr\<close> with a remainder.
\<close>

lemma whole_days_pos:
  fixes a d thr :: int
  assumes "0 < d"
  shows "(thr * d < a) = (thr < a div d \<or> (a div d = thr \<and> a mod d \<noteq> 0))"
proof -
  define q where "q = a div d"
  define r where "r = a mod d"
  have e: "a = q * d + r" by (simp add: q_def r_def)
  have r: "0 \<le> r" "r < d" using assms by (simp_all add: r_def)
  have "(thr * d < a) = (thr < q \<or> (q = thr \<and> r \<noteq> 0))"
  proof (cases "thr < q")
    case True
    then have "thr + 1 \<le> q" by simp
    then have "(thr + 1) * d \<le> q * d" using assms by (simp only: mult_right_mono less_imp_le)
    moreover have "(thr + 1) * d = thr * d + d" by (simp add: algebra_simps)
    ultimately have "thr * d < a" using e r assms by linarith
    with True show ?thesis by simp
  next
    case False
    show ?thesis
    proof (cases "q = thr")
      case True
      with e have "a = thr * d + r" by simp
      with r True False show ?thesis by auto
    next
      case ne: False
      with False have "q + 1 \<le> thr" by simp
      then have "(q + 1) * d \<le> thr * d" using assms by (simp only: mult_right_mono less_imp_le)
      moreover have "(q + 1) * d = q * d + d" by (simp add: algebra_simps)
      ultimately have "a \<le> thr * d" using e r by linarith
      with False ne show ?thesis by simp
    qed
  qed
  then show ?thesis by (simp add: q_def r_def)
qed

lemma whole_days:
  "(thr * day_us < a) = (thr < a div day_us \<or> (a div day_us = thr \<and> a mod day_us \<noteq> 0))"
  by (rule whole_days_pos) (simp add: day_us_def)

lemma whole_days_least:
  assumes "thr * day_us < a" and "a \<le> b"
  shows "thr \<le> b div day_us"
proof -
  from assms have "thr * day_us < b" by simp
  then have "thr < b div day_us \<or> (b div day_us = thr \<and> b mod day_us \<noteq> 0)"
    by (simp only: whole_days)
  then show ?thesis by auto
qed

text \<open>
  The \<open>days_old\<close> of the candidates of one item: the whole days from the item's timestamp
  to a reading of the clock that comes after the reading \<open>n\<close>.
\<close>

definition repo_days_from ::
  "clock \<Rightarrow> nat \<Rightarrow> string \<Rightarrow> int \<Rightarrow> repo_candidate list \<Rightarrow> bool" where
  "repo_days_from clk n p t cands =
     (\<forall>c \<in> set cands. rc_path c = p \<longrightarrow>
        rc_days_old c \<in> (\<lambda>k. Days ((clk k - t) div day_us)) ` {k. n < k})"

lemma analyze_repo_item_days:
  assumes "repo_days_from clk n p t (rv_cleanup_candidates v)" and "n < rv_clock v"
    and "file_path = p \<longrightarrow>
           fm_added_date file_info = Some s \<and> fromisoformat lib (replace_Z s) = Some (Naive t)"
  shows "repo_days_from clk n p t
           (rv_cleanup_candidates (analyze_repo_item lib clk cutoff file_path file_info v))
         \<and> n < rv_clock (analyze_repo_item lib clk cutoff file_path file_info v)"
  using assms
  by (auto simp: repo_days_from_def analyze_repo_item_def Let_def unknown_candidate_def
        datetime_less_def days_since_def
      split: option.splits datetime.splits sum.splits bool.splits)

lemma analyze_repo_loop_days:
  assumes "repo_days_from clk n p t (rv_cleanup_candidates v)" and "n < rv_clock v"
    and "\<forall>kv \<in> set files_data. fst kv = p \<longrightarrow>
           fm_added_date (snd kv) = Some s \<and> fromisoformat lib (replace_Z s) = Some (Naive t)"
  shows "repo_days_from clk n p t
           (rv_cleanup_candidates (analyze_repo_loop lib clk cutoff files_data v))"
  using assms
proof (induction files_data arbitrary: v)
  case Nil
  then show ?case by simp
next
  case (Cons kv files_data)
  obtain file_path file_info where kv: "kv = (file_path, file_info)" by (cases kv)
  from Cons.prems(3) have h: "file_path = p \<longrightarrow>
           fm_added_date file_info = Some s \<and> fromisoformat lib (replace_Z s) = Some (Naive t)"
    by (simp add: kv)
  from analyze_repo_item_days [OF Cons.prems(1,2) h, of cutoff]
  have a: "repo_days_from clk n p t
             (rv_cleanup_candidates (analyze_repo_item lib clk cutoff file_path file_info v))"
    and b: "n < rv_clock (analyze_repo_item lib clk cutoff file_path file_info v)"
    by simp_all
  from Cons.prems(3) have r: "\<forall>kv \<in> set files_data. fst kv = p \<longrightarrow>
           fm_added_date (snd kv) = Some s \<and> fromisoformat lib (replace_Z s) = Some (Naive t)"
    by simp
  from Cons.IH [OF a b r] show ?case by (simp add: kv)
qed

definition rss_days_from ::
  "clock \<Rightarrow> nat \<Rightarrow> string \<times> string \<times> string \<Rightarrow> int \<Rightarrow> rss_candidate list \<Rightarrow> bool" where
  "rss_days_from clk n key u cands =
     (\<forall>c \<in> set cands. candidate_key c = key \<longrightarrow>
        sc_days_old c \<in> (\<lambda>k. (clk k - u) div day_us) ` {k. n < k})"

lemma analyze_rss_item_days:
  assumes "rss_days_from clk n (entry_key e) u (sv_cleanup_candidates v)" and "n < sv_clock v"
    and "parse_entry_date lib (get_str (fe_published e)) (get_str (fe_detected_date e))
           = Some (Naive u)"
    and "analyze_rss_item lib clk cutoff entry v = Inr v'"
  shows "rss_days_from clk n (entry_key e) u (sv_cleanup_candidates v') \<and> n < sv_clock v'"
  using assms
  by (auto simp: rss_days_from_def analyze_rss_item_def Let_def candidate_key_def entry_key_def
        datetime_less_def days_since_def
      split: option.splits datetime.splits sum.splits bool.splits)

lemma analyze_rss_loop_days:
  assumes "rss_days_from clk n (entry_key e) u (sv_cleanup_candidates v)" and "n < sv_clock v"
    and "parse_entry_date lib (get_str (fe_published e)) (get_str (fe_detected_date e))
           = Some (Naive u)"
    and "analyze_rss_loop lib clk cutoff entries v = Inr v'"
  shows "rss_days_from clk n (entry_key e) u (sv_cleanup_candidates v')"
  using assms
proof (induction entries arbitrary: v)
  case Nil
  then show ?case by simp
next
  case (Cons x entries)
  from Cons.prems(4) obtain v1 where v1: "analyze_rss_item lib clk cutoff x v = Inr v1"
    and rest: "analyze_rss_loop lib clk cutoff entries v1 = Inr v'"
    by (cases "analyze_rss_item lib clk cutoff x v") simp_all
  from analyze_rss_item_days [OF Cons.prems(1,2,3) v1]
  have a: "rss_days_from clk n (entry_key e) u (sv_cleanup_candidates v1)" and b: "n < sv_clock v1"
    by simp_all
  from Cons.IH [OF a b Cons.prems(3) rest] show ?case .
qed

lemma analyze_rss_loop_of_result:
  assumes "feed_entries_json fs = Stored entries_data"
    and "cutoff_date_of (clk n) thr = Inr cutoff"
    and "analyze_rss_entries_for_cleanup lib clk n fs thr = Inr ((cands, tot), n')"
  shows "\<exists>v. analyze_rss_loop lib clk cutoff entries_data
               \<lparr>sv_cleanup_candidates = [], sv_total_entries = 0, sv_clock = Suc n\<rparr> = Inr v
             \<and> cands = sv_cleanup_candidates v"
  using assms by (auto simp: analyze_rss_entries_for_cleanup_def split: sum.splits)

text \<open>
  A content directory whose timestamps carry the suffix \<open>Z\<close>: both analyses replace it by
  \<open>+00:00\<close>, and \<open>fromisoformat\<close> then gives an aware datetime, here one day before the
  first reading of the clock.
\<close>

definition example_dir_aware :: content_dir where
  "example_dir_aware =
     \<lparr>files_data_json = Stored [(''zoned.md'', example_dated ''2024-05-31T00:00:00Z'' 10)],
      files_data_writable = True,
      content_files = [''zoned.md'' \<mapsto> RegularFile ''zoned text''],
      feed_entries_json = Stored [example_detected ''z'' [] ''2024-05-31T00:00:00Z''],
      feed_entries_writable = True\<rparr>"

lemma example_cutoff_1: "cutoff_date_of 63852796801000000 90 = Inr 63845020801000000"
  by (simp add: cutoff_date_of_def timedelta_days_def minus_timedelta_def day_us_def max_ticks_def)

lemma example_replace_Z_aware:
  "replace_Z ''2024-05-31T00:00:00Z'' = ''2024-05-31T00:00:00+00:00''"
  by (simp add: replace_Z_def)

lemma example_analyze_repo_second:
  "analyze_repo_files_for_cleanup example_lib example_clock 1 example_dir 90
     = Inr (([\<lparr>rc_path = ''old.md'', rc_size = 120, rc_added_date = ''2024-03-02T00:00:00'',
                rc_days_old = Days 91\<rparr>,
              \<lparr>rc_path = ''recent.md'', rc_size = 80, rc_added_date = ''2024-03-03T00:00:00'',
                rc_days_old = Days 90\<rparr>], 3, 240), 4)"
  by (simp add: analyze_repo_files_for_cleanup_def example_dir_def example_cutoff_1
        analyze_repo_item_def example_dated_def example_metadata_def get_size_def
        example_replace_Z example_fromisoformat datetime_less_def days_since_def
        example_clock_def day_us_def Let_def)

lemma example_analyze_rss_second:
  "analyze_rss_entries_for_cleanup example_lib example_clock 1 example_dir 90
     = Inr (([\<lparr>sc_id = ''p'', sc_title = ''Release notes'', sc_published = [],
                sc_detected_date = ''2024-03-02T00:00:00'', sc_days_old = 91\<rparr>,
              \<lparr>sc_id = ''q'', sc_title = ''Release notes'', sc_published = [],
                sc_detected_date = ''2024-03-03T00:00:00'', sc_days_old = 90\<rparr>], 2), 4)"
  by (simp add: analyze_rss_entries_for_cleanup_def example_dir_def example_cutoff_1
        analyze_rss_item_def example_detected_def get_str_def
        example_parse_entry_date datetime_less_def days_since_def
        example_clock_def day_us_def Let_def)

lemma example_analyze_repo_aware:
  "analyze_repo_files_for_cleanup example_lib example_clock 0 example_dir_aware 90
     = Inr (([\<lparr>rc_path = ''zoned.md'', rc_size = 10, rc_added_date = ''unknown'',
                rc_days_old = Unknown\<rparr>], 1, 10), 1)"
  by (simp add: analyze_repo_files_for_cleanup_def example_dir_aware_def example_cutoff
        analyze_repo_item_def example_dated_def example_metadata_def get_size_def
        example_replace_Z_aware example_lib_def datetime_less_def unknown_candidate_def
        example_clock_def Let_def)

lemma example_analyze_rss_aware:
  "analyze_rss_entries_for_cleanup example_lib example_clock 0 example_dir_aware 90 = Inl TypeError"
  by (simp add: analyze_rss_entries_for_cleanup_def example_dir_aware_def example_cutoff
        analyze_rss_item_def example_detected_def get_str_def parse_entry_date_def
        example_replace_Z_aware example_lib_def datetime_less_def
        example_clock_def Let_def)

text \<open>
  Claim C5, as amended. Let the cutoff date \<open>now - timedelta(days=thr)\<close> be a date of the
  calendar, and let the stored timestamp of an item parse to a naive datetime (for a
  repository file the non-empty \<open>added_date\<close>; for a feed entry what \<open>parse_entry_date\<close>
  returns, when no stored entry parses to an aware datetime). Then the analysis returns,
  and the item is a cleanup candidate if and only if the duration from its timestamp to
  the first reading of the clock is more than \<open>thr\<close> days: exactly \<open>thr\<close> days is no
  candidate, \<open>thr + 1\<close> days is a candidate. In whole days (the floor of the duration, as
  \<open>(now - date).days\<close> computes it) the item is a candidate if and only if its whole days
  are more than \<open>thr\<close>, or equal to \<open>thr\<close> with a remainder. The \<open>days_old\<close> reported
  for the candidate is the whole days from its timestamp to a later reading of the clock,
  so that it is at least \<open>thr\<close> when the clock does not go back, and may be \<open>thr\<close>.
\<close>

theorem cleanup_threshold_boundary:
  assumes "\<bar>thr\<bar> \<le> 999999999" and "0 \<le> clk n - thr * day_us" and "clk n - thr * day_us < max_ticks"
  shows "(files_data_json fs = Stored files_data \<and> distinct (map fst files_data)
            \<and> (p, info) \<in> set files_data \<and> fm_added_date info = Some s \<and> s \<noteq> []
            \<and> fromisoformat lib (replace_Z s) = Some (Naive t)
          \<longrightarrow> (\<exists>cands total_files total_size n'.
                 analyze_repo_files_for_cleanup lib clk n fs thr
                   = Inr ((cands, total_files, total_size), n')
                 \<and> (p \<in> rc_path ` set cands) = (thr * day_us < clk n - t)
                 \<and> (p \<in> rc_path ` set cands)
                     = (thr < (clk n - t) div day_us
                        \<or> ((clk n - t) div day_us = thr \<and> (clk n - t) mod day_us \<noteq> 0))
                 \<and> (clk n - t = thr * day_us \<longrightarrow> p \<notin> rc_path ` set cands)
                 \<and> (clk n - t = (thr + 1) * day_us \<longrightarrow> p \<in> rc_path ` set cands)
                 \<and> (\<forall>c \<in> set cands. rc_path c = p \<longrightarrow>
                       (\<exists>k. n < k \<and> rc_days_old c = Days ((clk k - t) div day_us)))
                 \<and> ((\<forall>k. n < k \<longrightarrow> clk n \<le> clk k) \<longrightarrow>
                       (\<forall>c \<in> set cands. rc_path c = p \<longrightarrow>
                          (\<exists>d. rc_days_old c = Days d \<and> thr \<le> d)))))
       \<and> (feed_entries_json fs = Stored entries_data \<and> (\<forall>x \<in> set entries_data. not_aware lib x)
            \<and> e \<in> set entries_data
            \<and> parse_entry_date lib (get_str (fe_published e)) (get_str (fe_detected_date e))
                = Some (Naive u)
          \<longrightarrow> (\<exists>cands total_entries n'.
                 analyze_rss_entries_for_cleanup lib clk n fs thr
                   = Inr ((cands, total_entries), n')
                 \<and> (\<exists>c \<in> set cands. candidate_key c = entry_key e) = (thr * day_us < clk n - u)
                 \<and> (\<exists>c \<in> set cands. candidate_key c = entry_key e)
                     = (thr < (clk n - u) div day_us
                        \<or> ((clk n - u) div day_us = thr \<and> (clk n - u) mod day_us \<noteq> 0))
                 \<and> (clk n - u = thr * day_us
                      \<longrightarrow> \<not> (\<exists>c \<in> set cands. candidate_key c = entry_key e))
                 \<and> (clk n - u = (thr + 1) * day_us
                      \<longrightarrow> (\<exists>c \<in> set cands. candidate_key c = entry_key e))
                 \<and> (\<forall>c \<in> set cands. candidate_key c = entry_key e \<longrightarrow>
                       (\<exists>k. n < k \<and> sc_days_old c = (clk k - u) div day_us))
                 \<and> ((\<forall>k. n < k \<longrightarrow> clk n \<le> clk k) \<longrightarrow>
                       (\<forall>c \<in> set cands. candidate_key c = entry_key e \<longrightarrow>
                          thr \<le> sc_days_old c))))"
proof (intro conjI impI)
  let ?cutoff = "clk n - thr * day_us"
  have cut: "cutoff_date_of (clk n) thr = Inr ?cutoff"
    using assms(1-3) by (rule cutoff_in_range)
  have day: "0 < day_us" by (simp add: day_us_def)
  have next_day: "thr * day_us < (thr + 1) * day_us"
    using day by (simp add: algebra_simps)
  {
    assume a: "files_data_json fs = Stored files_data \<and> distinct (map fst files_data)
            \<and> (p, info) \<in> set files_data \<and> fm_added_date info = Some s \<and> s \<noteq> []
            \<and> fromisoformat lib (replace_Z s) = Some (Naive t)"
    then have a1: "files_data_json fs = Stored files_data" and a2: "distinct (map fst files_data)"
      and a3: "(p, info) \<in> set files_data" and a4: "fm_added_date info = Some s" and a5: "s \<noteq> []"
      and a6: "fromisoformat lib (replace_Z s) = Some (Naive t)"
      by simp_all
    from analyze_repo_result [where clk = clk and n = n and lib = lib, OF a1 cut]
    obtain cands n' where r:
      "analyze_repo_files_for_cleanup lib clk n fs thr
         = Inr ((cands, length files_data, sum_list (map (get_size \<circ> snd) files_data)), n')"
      "map rc_path cands = map fst (filter (\<lambda>kv. repo_is_candidate lib ?cutoff (snd kv)) files_data)"
      "cands = rv_cleanup_candidates (analyze_repo_loop lib clk ?cutoff files_data
                \<lparr>rv_cleanup_candidates = [], rv_total_files = 0, rv_total_size = 0, rv_clock = Suc n\<rparr>)"
      by blast
    have "(p \<in> set (map rc_path cands)) = repo_is_candidate lib ?cutoff info"
      unfolding r(2) using key_in_filter [OF a2 a3, of "\<lambda>kv. repo_is_candidate lib ?cutoff (snd kv)"]
      by simp
    moreover have "repo_is_candidate lib ?cutoff info = (t < ?cutoff)"
      using a4 a5 a6 by (simp add: repo_is_candidate_def)
    ultimately have ri: "(p \<in> rc_path ` set cands) = (thr * day_us < clk n - t)"
      by auto
    have rw: "(p \<in> rc_path ` set cands)
                = (thr < (clk n - t) div day_us
                   \<or> ((clk n - t) div day_us = thr \<and> (clk n - t) mod day_us \<noteq> 0))"
      using ri by (simp only: whole_days)
    have same: "\<forall>kv \<in> set files_data. fst kv = p \<longrightarrow>
           fm_added_date (snd kv) = Some s \<and> fromisoformat lib (replace_Z s) = Some (Naive t)"
    proof (intro ballI impI)
      fix kv assume kv: "kv \<in> set files_data" "fst kv = p"
      then have "(p, snd kv) \<in> set files_data" by (metis prod.collapse)
      with a2 a3 have "snd kv = info" by (metis eq_key_imp_eq_value)
      with a4 a6 show "fm_added_date (snd kv) = Some s
          \<and> fromisoformat lib (replace_Z s) = Some (Naive t)"
        by simp
    qed
    have "repo_days_from clk n p t cands"
      unfolding r(3)
      by (rule analyze_repo_loop_days [where s = s]) (simp_all add: repo_days_from_def same)
    then have rd: "\<forall>c \<in> set cands. rc_path c = p \<longrightarrow>
                       (\<exists>k. n < k \<and> rc_days_old c = Days ((clk k - t) div day_us))"
      by (auto simp: repo_days_from_def)
    have rm: "(\<forall>k. n < k \<longrightarrow> clk n \<le> clk k) \<longrightarrow>
                (\<forall>c \<in> set cands. rc_path c = p \<longrightarrow> (\<exists>d. rc_days_old c = Days d \<and> thr \<le> d))"
    proof (intro impI ballI)
      fix c assume mono: "\<forall>k. n < k \<longrightarrow> clk n \<le> clk k" and c: "c \<in> set cands" "rc_path c = p"
      from c have "p \<in> rc_path ` set cands" by (metis imageI)
      with ri have old: "thr * day_us < clk n - t" by simp
      from rd c obtain k where k: "n < k" "rc_days_old c = Days ((clk k - t) div day_us)"
        by blast
      from mono k(1) have "clk n - t \<le> clk k - t" by simp
      with old have "thr \<le> (clk k - t) div day_us" by (rule whole_days_least)
      with k(2) show "\<exists>d. rc_days_old c = Days d \<and> thr \<le> d" by simp
    qed
    have b1: "clk n - t = thr * day_us \<longrightarrow> p \<notin> rc_path ` set cands"
      using ri by simp
    have b2: "clk n - t = (thr + 1) * day_us \<longrightarrow> p \<in> rc_path ` set cands"
      using ri next_day by simp
    from r(1) ri rw b1 b2 rd rm
    show "\<exists>cands total_files total_size n'.
                 analyze_repo_files_for_cleanup lib clk n fs thr
                   = Inr ((cands, total_files, total_size), n')
                 \<and> (p \<in> rc_path ` set cands) = (thr * day_us < clk n - t)
                 \<and> (p \<in> rc_path ` set cands)
                     = (thr < (clk n - t) div day_us
                        \<or> ((clk n - t) div day_us = thr \<and> (clk n - t) mod day_us \<noteq> 0))
                 \<and> (clk n - t = thr * day_us \<longrightarrow> p \<notin> rc_path ` set cands)
                 \<and> (clk n - t = (thr + 1) * day_us \<longrightarrow> p \<in> rc_path ` set cands)
                 \<and> (\<forall>c \<in> set cands. rc_path c = p \<longrightarrow>
                       (\<exists>k. n < k \<and> rc_days_old c = Days ((clk k - t) div day_us)))
                 \<and> ((\<forall>k. n < k \<longrightarrow> clk n \<le> clk k) \<longrightarrow>
                       (\<forall>c \<in> set cands. rc_path c = p \<longrightarrow>
                          (\<exists>d. rc_days_old c = Days d \<and> thr \<le> d)))"
      by (intro exI conjI)
  }
  {
    assume b: "feed_entries_json fs = Stored entries_data \<and> (\<forall>x \<in> set entries_data. not_aware lib x)
            \<and> e \<in> set entries_data
            \<and> parse_entry_date lib (get_str (fe_published e)) (get_str (fe_detected_date e))
                = Some (Naive u)"
    then have f1: "feed_entries_json fs = Stored entries_data"
      and f2: "\<forall>x \<in> set entries_data. not_aware lib x" and f3: "e \<in> set entries_data"
      and f4: "parse_entry_date lib (get_str (fe_published e)) (get_str (fe_detected_date e))
                = Some (Naive u)"
      by simp_all
    from analyze_rss_result [where clk = clk and n = n, OF f1 cut f2]
    obtain scands m' where q:
      "analyze_rss_entries_for_cleanup lib clk n fs thr = Inr ((scands, length entries_data), m')"
      "map candidate_key scands = map entry_key (filter (rss_is_candidate lib ?cutoff) entries_data)"
      by blast
    have "(\<exists>c \<in> set scands. candidate_key c = entry_key e) = rss_is_candidate lib ?cutoff e"
      using q(2) f3 by (rule rss_candidate_iff)
    moreover have "rss_is_candidate lib ?cutoff e = (u < ?cutoff)"
      using f4 by (simp add: rss_is_candidate_def)
    ultimately have si: "(\<exists>c \<in> set scands. candidate_key c = entry_key e) = (thr * day_us < clk n - u)"
      by auto
    have sw: "(\<exists>c \<in> set scands. candidate_key c = entry_key e)
                = (thr < (clk n - u) div day_us
                   \<or> ((clk n - u) div day_us = thr \<and> (clk n - u) mod day_us \<noteq> 0))"
      using si by (simp only: whole_days)
    from analyze_rss_loop_of_result [OF f1 cut q(1)]
    obtain v where v: "analyze_rss_loop lib clk ?cutoff entries_data
               \<lparr>sv_cleanup_candidates = [], sv_total_entries = 0, sv_clock = Suc n\<rparr> = Inr v"
      "scands = sv_cleanup_candidates v"
      by blast
    have "rss_days_from clk n (entry_key e) u (sv_cleanup_candidates v)"
      by (rule analyze_rss_loop_days [OF _ _ f4 v(1)]) (simp_all add: rss_days_from_def)
    then have sd: "\<forall>c \<in> set scands. candidate_key c = entry_key e \<longrightarrow>
                       (\<exists>k. n < k \<and> sc_days_old c = (clk k - u) div day_us)"
      by (auto simp: rss_days_from_def v(2))
    have sm: "(\<forall>k. n < k \<longrightarrow> clk n \<le> clk k) \<longrightarrow>
                (\<forall>c \<in> set scands. candidate_key c = entry_key e \<longrightarrow> thr \<le> sc_days_old c)"
    proof (intro impI ballI)
      fix c assume mono: "\<forall>k. n < k \<longrightarrow> clk n \<le> clk k"
        and c: "c \<in> set scands" "candidate_key c = entry_key e"
      from c have "\<exists>c \<in> set scands. candidate_key c = entry_key e" by blast
      with si have old: "thr * day_us < clk n - u" by simp
      from sd c obtain k where k: "n < k" "sc_days_old c = (clk k - u) div day_us"
        by blast
      from mono k(1) have "clk n - u \<le> clk k - u" by simp
      with old have "thr \<le> (clk k - u) div day_us" by (rule whole_days_least)
      with k(2) show "thr \<le> sc_days_old c" by simp
    qed
    have c1: "clk n - u = thr * day_us
                \<longrightarrow> \<not> (\<exists>c \<in> set scands. candidate_key c = entry_key e)"
      using si by simp
    have c2: "clk n - u = (thr + 1) * day_us
                \<longrightarrow> (\<exists>c \<in> set scands. candidate_key c = entry_key e)"
      using si next_day by simp
    from q(1) si sw c1 c2 sd sm
    show "\<exists>cands total_entries n'.
                 analyze_rss_entries_for_cleanup lib clk n fs thr
                   = Inr ((cands, total_entries), n')
                 \<and> (\<exists>c \<in> set cands. candidate_key c = entry_key e) = (thr * day_us < clk n - u)
                 \<and> (\<exists>c \<in> set cands. candidate_key c = entry_key e)
                     = (thr < (clk n - u) div day_us
                        \<or> ((clk n - u) div day_us = thr \<and> (clk n - u) mod day_us \<noteq> 0))
                 \<and> (clk n - u = thr * day_us
                      \<longrightarrow> \<not> (\<exists>c \<in> set cands. candidate_key c = entry_key e))
                 \<and> (clk n - u = (thr + 1) * day_us
                      \<longrightarrow> (\<exists>c \<in> set cands. candidate_key c = entry_key e))
                 \<and> (\<forall>c \<in> set cands. candidate_key c = entry_key e \<longrightarrow>
                       (\<exists>k. n < k \<and> sc_days_old c = (clk k - u) div day_us))
                 \<and> ((\<forall>k. n < k \<longrightarrow> clk n \<le> clk k) \<longrightarrow>
                       (\<forall>c \<in> set cands. candidate_key c = entry_key e \<longrightarrow>
                          thr \<le> sc_days_old c))"
      by (intro exI conjI)
  }
qed

theorem cleanup_threshold_boundary_witness:
  "(\<exists>cands total_files total_size n'.
      analyze_repo_files_for_cleanup example_lib example_clock 0 example_dir 90
        = Inr ((cands, total_files, total_size), n')
      \<and> ''recent.md'' \<notin> rc_path ` set cands \<and> ''old.md'' \<in> rc_path ` set cands)
   \<and> (\<exists>cands total_entries n'.
      analyze_rss_entries_for_cleanup example_lib example_clock 0 example_dir 90
        = Inr ((cands, total_entries), n')
      \<and> \<not> (\<exists>c \<in> set cands. candidate_key c = entry_key (example_detected ''q'' [] ''2024-03-03T00:00:00''))
      \<and> (\<exists>c \<in> set cands. candidate_key c = entry_key (example_detected ''p'' [] ''2024-03-02T00:00:00'')))"
proof -
  let ?files = "[(''old.md'', example_dated ''2024-03-02T00:00:00'' 120),
                 (''recent.md'', example_dated ''2024-03-03T00:00:00'' 80),
                 (''undated.md'', example_metadata ''H3'' 40)]"
  let ?entries = "[example_detected ''p'' [] ''2024-03-02T00:00:00'',
                   example_detected ''q'' [] ''2024-03-03T00:00:00'']"
  have h1: "\<bar>90 :: int\<bar> \<le> 999999999" by simp
  have h2: "0 \<le> example_clock 0 - 90 * day_us"
    by (simp add: example_clock_def day_us_def)
  have h3: "example_clock 0 - 90 * day_us < max_ticks"
    by (simp add: example_clock_def day_us_def max_ticks_def)
  have a: "files_data_json example_dir = Stored ?files \<and> distinct (map fst ?files)
      \<and> (''recent.md'', example_dated ''2024-03-03T00:00:00'' 80) \<in> set ?files
      \<and> fm_added_date (example_dated ''2024-03-03T00:00:00'' 80) = Some ''2024-03-03T00:00:00''
      \<and> ''2024-03-03T00:00:00'' \<noteq> []
      \<and> fromisoformat example_lib (replace_Z ''2024-03-03T00:00:00'') = Some (Naive 63845020800000000)"
    by (simp add: example_dir_def example_dated_def example_replace_Z example_fromisoformat)
  have b: "feed_entries_json example_dir = Stored ?entries
      \<and> (\<forall>x \<in> set ?entries. not_aware example_lib x)
      \<and> example_detected ''p'' [] ''2024-03-02T00:00:00'' \<in> set ?entries
      \<and> parse_entry_date example_lib
               (get_str (fe_published (example_detected ''p'' [] ''2024-03-02T00:00:00'')))
               (get_str (fe_detected_date (example_detected ''p'' [] ''2024-03-02T00:00:00'')))
             = Some (Naive 63844934400000000)"
    by (simp add: example_dir_def not_aware_def example_detected_def get_str_def
          example_parse_entry_date)
  note inst = cleanup_threshold_boundary
    [where clk = example_clock and n = 0 and lib = example_lib and fs = example_dir
       and files_data = ?files and p = "''recent.md''"
       and info = "example_dated ''2024-03-03T00:00:00'' 80" and s = "''2024-03-03T00:00:00''"
       and t = 63845020800000000 and entries_data = ?entries
       and e = "example_detected ''p'' [] ''2024-03-02T00:00:00''" and u = 63844934400000000,
     OF h1 h2 h3]
  have ages: "example_clock 0 - 63845020800000000 = 90 * day_us"
             "example_clock 0 - 63844934400000000 = (90 + 1) * day_us"
    by (simp_all add: example_clock_def day_us_def)
  from inst [THEN conjunct1, THEN mp, OF a]
  obtain cands total_files total_size n' where r:
    "analyze_repo_files_for_cleanup example_lib example_clock 0 example_dir 90
       = Inr ((cands, total_files, total_size), n')"
    "example_clock 0 - 63845020800000000 = 90 * day_us \<longrightarrow> ''recent.md'' \<notin> rc_path ` set cands"
    by blast
  from r(2) ages(1) have r1: "''recent.md'' \<notin> rc_path ` set cands" by simp
  from r(1) have "cands = [\<lparr>rc_path = ''old.md'', rc_size = 120,
         rc_added_date = ''2024-03-02T00:00:00'', rc_days_old = Days 91\<rparr>]"
    unfolding example_analyze_repo by simp
  then have r2: "''old.md'' \<in> rc_path ` set cands" by simp
  from inst [THEN conjunct2, THEN mp, OF b]
  obtain scands total_entries m' where q:
    "analyze_rss_entries_for_cleanup example_lib example_clock 0 example_dir 90
       = Inr ((scands, total_entries), m')"
    "example_clock 0 - 63844934400000000 = (90 + 1) * day_us
       \<longrightarrow> (\<exists>c \<in> set scands. candidate_key c
               = entry_key (example_detected ''p'' [] ''2024-03-02T00:00:00''))"
    by blast
  from q(2) ages(2)
  have q1: "\<exists>c \<in> set scands. candidate_key c
               = entry_key (example_detected ''p'' [] ''2024-03-02T00:00:00'')"
    by simp
  from q(1) have "scands = [\<lparr>sc_id = ''p'', sc_title = ''Release notes'', sc_published = [],
                sc_detected_date = ''2024-03-02T00:00:00'', sc_days_old = 91\<rparr>]"
    unfolding example_analyze_rss by simp
  then have q2: "\<not> (\<exists>c \<in> set scands. candidate_key c
               = entry_key (example_detected ''q'' [] ''2024-03-03T00:00:00''))"
    by (simp add: candidate_key_def entry_key_def example_detected_def get_str_def)
  from r(1) r1 r2 have repo: "\<exists>cands total_files total_size n'.
      analyze_repo_files_for_cleanup example_lib example_clock 0 example_dir 90
        = Inr ((cands, total_files, total_size), n')
      \<and> ''recent.md'' \<notin> rc_path ` set cands \<and> ''old.md'' \<in> rc_path ` set cands"
    by (intro exI conjI)
  from q(1) q2 q1 have rss: "\<exists>cands total_entries n'.
      analyze_rss_entries_for_cleanup example_lib example_clock 0 example_dir 90
        = Inr ((cands, total_entries), n')
      \<and> \<not> (\<exists>c \<in> set cands. candidate_key c = entry_key (example_detected ''q'' [] ''2024-03-03T00:00:00''))
      \<and> (\<exists>c \<in> set cands. candidate_key c = entry_key (example_detected ''p'' [] ''2024-03-02T00:00:00''))"
    by (intro exI conjI)
  from repo rss show ?thesis by (rule conjI)
qed

text \<open>
  The claim as it stands fails. At the second reading of the clock the file \<open>recent.md\<close>
  and the entry \<open>q\<close> are 90 days and one second old: their age in days is the threshold,
  and both are candidates, reported with \<open>days_old = 90\<close>. And a timestamp that ends in
  \<open>Z\<close> parses to an aware datetime, whose comparison with the cutoff date raises
  \<open>TypeError\<close>: the file \<open>zoned.md\<close>, one day old, is a candidate at the threshold of 90
  days, and the analysis of the feed entries ends in the exception.
\<close>

theorem candidate_at_threshold_counterexample:
  "fromisoformat example_lib (replace_Z ''2024-03-03T00:00:00'') = Some (Naive 63845020800000000)
   \<and> (example_clock 1 - 63845020800000000) div day_us = 90
   \<and> analyze_repo_files_for_cleanup example_lib example_clock 1 example_dir 90
       = Inr (([\<lparr>rc_path = ''old.md'', rc_size = 120, rc_added_date = ''2024-03-02T00:00:00'',
                  rc_days_old = Days 91\<rparr>,
                \<lparr>rc_path = ''recent.md'', rc_size = 80, rc_added_date = ''2024-03-03T00:00:00'',
                  rc_days_old = Days 90\<rparr>], 3, 240), 4)
   \<and> analyze_rss_entries_for_cleanup example_lib example_clock 1 example_dir 90
       = Inr (([\<lparr>sc_id = ''p'', sc_title = ''Release notes'', sc_published = [],
                  sc_detected_date = ''2024-03-02T00:00:00'', sc_days_old = 91\<rparr>,
                \<lparr>sc_id = ''q'', sc_title = ''Release notes'', sc_published = [],
                  sc_detected_date = ''2024-03-03T00:00:00'', sc_days_old = 90\<rparr>], 2), 4)
   \<and> fromisoformat example_lib (replace_Z ''2024-05-31T00:00:00Z'') = Some (Aware 63852710400000000)
   \<and> (example_clock 0 - 63852710400000000) div day_us = 1
   \<and> analyze_repo_files_for_cleanup example_lib example_clock 0 example_dir_aware 90
       = Inr (([\<lparr>rc_path = ''zoned.md'', rc_size = 10, rc_added_date = ''unknown'',
                  rc_days_old = Unknown\<rparr>], 1, 10), 1)
   \<and> analyze_rss_entries_for_cleanup example_lib example_clock 0 example_dir_aware 90
       = Inl TypeError"
proof -
  have f1: "fromisoformat example_lib (replace_Z ''2024-03-03T00:00:00'')
              = Some (Naive 63845020800000000)"
    by (simp add: example_replace_Z example_fromisoformat)
  have d1: "(example_clock 1 - 63845020800000000) div day_us = 90"
    by (simp add: example_clock_def day_us_def)
  have f2: "fromisoformat example_lib (replace_Z ''2024-05-31T00:00:00Z'')
              = Some (Aware 63852710400000000)"
    by (simp add: example_replace_Z_aware example_lib_def)
  have d2: "(example_clock 0 - 63852710400000000) div day_us = 1"
    by (simp add: example_clock_def day_us_def)
  from f1 d1 example_analyze_repo_second example_analyze_rss_second f2 d2
    example_analyze_repo_aware example_analyze_rss_aware
  show ?thesis by (intro conjI)
qed

subsection \<open>Timestamps that do not parse\<close>

text \<open>
  Claim C6, as amended. A repository file whose non-empty \<open>added_date\<close> does not parse is
  reported as a cleanup candidate of unknown age, whatever the threshold is. A feed
  entry whose dates do not parse (\<open>parse_entry_date\<close> returns \<open>None\<close>) is never reported
  as a cleanup candidate.
\<close>

theorem unparseable_timestamp_fallback:
  assumes "\<bar>thr\<bar> \<le> 999999999" and "0 \<le> clk n - thr * day_us" and "clk n - thr * day_us < max_ticks"
    and "files_data_json fs = Stored files_data"
    and "(p, info) \<in> set files_data" and "fm_added_date info = Some s" and "s \<noteq> []"
    and "fromisoformat lib (replace_Z s) = None"
    and "feed_entries_json fs = Stored entries_data" and "\<forall>x \<in> set entries_data. not_aware lib x"
    and "e \<in> set entries_data"
    and "parse_entry_date lib (get_str (fe_published e)) (get_str (fe_detected_date e)) = None"
  shows "(\<exists>cands total_files total_size n'.
            analyze_repo_files_for_cleanup lib clk n fs thr = Inr ((cands, total_files, total_size), n')
            \<and> \<lparr>rc_path = p, rc_size = get_size info, rc_added_date = ''unknown'',
                rc_days_old = Unknown\<rparr> \<in> set cands)
       \<and> (\<exists>cands total_entries n'.
            analyze_rss_entries_for_cleanup lib clk n fs thr = Inr ((cands, total_entries), n')
            \<and> \<not> (\<exists>c \<in> set cands. candidate_key c = entry_key e))"
proof -
  let ?cutoff = "clk n - thr * day_us"
  have cut: "cutoff_date_of (clk n) thr = Inr ?cutoff"
    using assms(1-3) by (rule cutoff_in_range)
  from analyze_repo_result [where clk = clk and n = n and lib = lib, OF assms(4) cut]
  obtain cands n' where r:
    "analyze_repo_files_for_cleanup lib clk n fs thr
       = Inr ((cands, length files_data, sum_list (map (get_size \<circ> snd) files_data)), n')"
    "cands = rv_cleanup_candidates (analyze_repo_loop lib clk ?cutoff files_data
                \<lparr>rv_cleanup_candidates = [], rv_total_files = 0, rv_total_size = 0, rv_clock = Suc n\<rparr>)"
    by blast
  have "unknown_candidate p (get_size info) \<in> set cands"
    unfolding r(2) using assms(5-8) by (rule analyze_repo_loop_unknown)
  then have u: "\<lparr>rc_path = p, rc_size = get_size info, rc_added_date = ''unknown'',
                rc_days_old = Unknown\<rparr> \<in> set cands"
    by (simp add: unknown_candidate_def)
  have repo: "\<exists>cands total_files total_size n'.
            analyze_repo_files_for_cleanup lib clk n fs thr = Inr ((cands, total_files, total_size), n')
            \<and> \<lparr>rc_path = p, rc_size = get_size info, rc_added_date = ''unknown'',
                rc_days_old = Unknown\<rparr> \<in> set cands"
    using r(1) u by blast
  from analyze_rss_result [where clk = clk and n = n, OF assms(9) cut assms(10)]
  obtain scands m' where q:
    "analyze_rss_entries_for_cleanup lib clk n fs thr = Inr ((scands, length entries_data), m')"
    "map candidate_key scands = map entry_key (filter (rss_is_candidate lib ?cutoff) entries_data)"
    by blast
  have "(\<exists>c \<in> set scands. candidate_key c = entry_key e) = rss_is_candidate lib ?cutoff e"
    using q(2) assms(11) by (rule rss_candidate_iff)
  moreover have "\<not> rss_is_candidate lib ?cutoff e"
    using assms(12) by (simp add: rss_is_candidate_def)
  ultimately have "\<not> (\<exists>c \<in> set scands. candidate_key c = entry_key e)" by simp
  with q(1) have rss: "\<exists>cands total_entries n'.
            analyze_rss_entries_for_cleanup lib clk n fs thr = Inr ((cands, total_entries), n')
            \<and> \<not> (\<exists>c \<in> set cands. candidate_key c = entry_key e)"
    by blast
  from repo rss show ?thesis by (rule conjI)
qed

theorem unparseable_timestamp_fallback_witness:
  "analyze_repo_files_for_cleanup example_lib example_clock 0 example_dir_unparseable 0
     = Inr (([\<lparr>rc_path = ''odd.md'', rc_size = 10, rc_added_date = ''unknown'',
                rc_days_old = Unknown\<rparr>], 1, 10), 1)
   \<and> (\<exists>cands total_entries n'.
        analyze_rss_entries_for_cleanup example_lib example_clock 0 example_dir_unparseable 0
          = Inr ((cands, total_entries), n')
        \<and> \<not> (\<exists>c \<in> set cands.
                candidate_key c = entry_key (example_detected ''r'' ''not a date'' ''neither'')))"
proof -
  let ?files = "[(''odd.md'', example_dated ''not a date'' 10)]"
  let ?entries = "[example_detected ''r'' ''not a date'' ''neither'', example_detected ''s'' [] []]"
  have h1: "\<bar>0 :: int\<bar> \<le> 999999999" by simp
  have h2: "0 \<le> example_clock 0 - 0 * day_us"
    by (simp add: example_clock_def)
  have h3: "example_clock 0 - 0 * day_us < max_ticks"
    by (simp add: example_clock_def day_us_def max_ticks_def)
  have h4: "files_data_json example_dir_unparseable = Stored ?files"
    by (simp add: example_dir_unparseable_def)
  have h5: "(''odd.md'', example_dated ''not a date'' 10) \<in> set ?files" by simp
  have h6: "fm_added_date (example_dated ''not a date'' 10) = Some ''not a date''"
    by (simp add: example_dated_def)
  have h7: "''not a date'' \<noteq> []" by simp
  have h8: "fromisoformat example_lib (replace_Z ''not a date'') = None"
    by (simp add: example_replace_Z example_fromisoformat)
  have h9: "feed_entries_json example_dir_unparseable = Stored ?entries"
    by (simp add: example_dir_unparseable_def)
  have h10: "\<forall>x \<in> set ?entries. not_aware example_lib x"
    by (simp add: not_aware_def example_detected_def get_str_def example_parse_entry_date)
  have h11: "example_detected ''r'' ''not a date'' ''neither'' \<in> set ?entries" by simp
  have h12: "parse_entry_date example_lib
               (get_str (fe_published (example_detected ''r'' ''not a date'' ''neither'')))
               (get_str (fe_detected_date (example_detected ''r'' ''not a date'' ''neither'')))
             = None"
    by (simp add: example_detected_def get_str_def example_parse_entry_date)
  from unparseable_timestamp_fallback [where clk = example_clock and n = 0,
      OF h1 h2 h3 h4 h5 h6 h7 h8 h9 h10 h11 h12] example_analyze_repo_unparseable
  show ?thesis by simp
qed

text \<open>
  The claim as stated fails in the feed path: with threshold 0, the analysis of two
  entries without a date that parses returns no candidate.
\<close>

theorem unparseable_feed_entry_counterexample:
  "parse_entry_date example_lib ''not a date'' ''neither'' = None
   \<and> feed_entries_json example_dir_unparseable
       = Stored [example_detected ''r'' ''not a date'' ''neither'', example_detected ''s'' [] []]
   \<and> analyze_rss_entries_for_cleanup example_lib example_clock 0 example_dir_unparseable 0
       = Inr (([], 2), 1)"
proof -
  have f: "feed_entries_json example_dir_unparseable
       = Stored [example_detected ''r'' ''not a date'' ''neither'', example_detected ''s'' [] []]"
    by (simp add: example_dir_unparseable_def)
  from example_parse_entry_date(3) f example_analyze_rss_unparseable
  show ?thesis by (intro conjI)
qed

section \<open>The scan of the monitored directory (\<open>monitor_repo_directory.py\<close>)\<close>

text \<open>
  \<open>repo.get_contents(path)\<close> is a call to the content host. For the path of a file it
  raises or gives a \<open>ContentFile\<close>, whose \<open>decoded_content.decode('utf-8')\<close> gives the text
  or raises (\<open>None\<close>). The listing of the monitored directory is a tree of items: each item
  has the type, name and path the listing shows, what the host answers when
  \<open>download_file_metadata\<close> and then \<open>download_file_content_for_commit\<close> ask for its path,
  and, for a directory, what the host answers when \<open>handle_directory\<close> asks for its
  contents (\<open>None\<close>: the call raises; a single item is the list of that item).
\<close>

record content_file =
  cf_type :: string
  cf_sha :: string
  cf_size :: int
  cf_path :: string
  cf_download_url :: "string option"
  cf_decoded_content :: "string option"

datatype fetched = Fails | Got content_file

datatype item =
  Item (it_type: string) (it_name: string) (it_path: string)
       (it_metadata: fetched) (it_content: fetched) (it_subcontents: "item list option")

text \<open>
  \<open>download_file_metadata\<close>: every exception ends in \<open>return None\<close>, and so does a content
  that is not of type \<open>"file"\<close>. The dictionary it builds has the six keys below, and no
  \<open>added_date\<close>; \<open>last_processed\<close> is a reading of the clock.
\<close>

definition download_file_metadata ::
  "pylib \<Rightarrow> clock \<Rightarrow> nat \<Rightarrow> fetched \<Rightarrow> file_metadata option \<times> nat" where
  "download_file_metadata lib clk n response =
     (case response of
        Fails \<Rightarrow> (None, n)
      | Got file_content \<Rightarrow>
          if cf_type file_content = ''file''
          then (case cf_decoded_content file_content of
                  None \<Rightarrow> (None, n)
                | Some content \<Rightarrow>
                    (Some \<lparr>fm_sha = Some (cf_sha file_content),
                           fm_size = Some (cf_size file_content),
                           fm_path = Some (cf_path file_content),
                           fm_content_hash = Some (sha256_hexdigest lib content),
                           fm_download_url = cf_download_url file_content,
                           fm_last_processed = Some (isoformat lib (clk n)),
                           fm_added_date = None\<rparr>,
                     Suc n))
          else (None, n))"

definition download_file_content_for_commit :: "fetched \<Rightarrow> string option" where
  "download_file_content_for_commit response =
     (case response of
        Fails \<Rightarrow> None
      | Got file_content \<Rightarrow>
          if cf_type file_content = ''file'' then cf_decoded_content file_content else None)"

text \<open>
  \<open>Path(file_path).suffix.lower()\<close>, for a path of names joined by \<open>/\<close>: the suffix of the
  last name starts at its last dot, when that dot is neither its first nor its last
  character.
\<close>

definition path_name :: "string \<Rightarrow> string" where
  "path_name file_path = rev (takeWhile (\<lambda>c. c \<noteq> CHR ''/'') (rev file_path))"

definition suffix :: "string \<Rightarrow> string" where
  "suffix file_path =
     (let name = path_name file_path;
          after = rev (takeWhile (\<lambda>c. c \<noteq> CHR ''.'') (rev name))
      in if length after < length name \<and> after \<noteq> [] \<and> Suc (length after) < length name
         then CHR ''.'' # after else [])"

definition lower_char :: "char \<Rightarrow> char" where
  "lower_char c =
     (let k = (of_char c :: nat) in if 65 \<le> k \<and> k \<le> 90 then char_of (k + 32) else c)"

definition should_process_file :: "string \<Rightarrow> bool" where
  "should_process_file file_path =
     (map lower_char (suffix file_path) \<in> {''.md'', ''.markdown'', ''.txt'', ''.json''})"

text \<open>\<open>d[k] = v\<close> on a dictionary: the key keeps its place, a new key goes to the end.\<close>

fun dict_set :: "'k \<Rightarrow> 'v \<Rightarrow> ('k \<times> 'v) list \<Rightarrow> ('k \<times> 'v) list" where
  "dict_set k v [] = [(k, v)]"
| "dict_set k v ((k', v') # rest) =
     (if k' = k then (k, v) # rest else (k', v') # dict_set k v rest)"

text \<open>
  The state of the scan: the dictionary being filled and the counter of the clock. The
  files saved locally are not part of the snapshot and are left out; \<open>save_file_locally\<close>
  may raise, and \<open>local_storage_path\<close> is \<open>None\<close> or says for which relative paths it
  succeeds. With a state comes whether an exception is leaving the function.
\<close>

record scan =
  gs_files :: snapshot
  gs_clock :: nat

definition handle_file ::
  "pylib \<Rightarrow> clock \<Rightarrow> (string \<Rightarrow> bool) option \<Rightarrow> string \<Rightarrow> fetched \<Rightarrow> fetched \<Rightarrow> string
     \<Rightarrow> scan \<Rightarrow> scan \<times> bool" where
  "handle_file lib clk local_storage_path path metadata_response content_response relative_path st =
     (if should_process_file path
      then (case download_file_metadata lib clk (gs_clock st) metadata_response of
              (None, k) \<Rightarrow> (st\<lparr>gs_clock := k\<rparr>, False)
            | (Some file_metadata, k) \<Rightarrow>
                (let st1 = st\<lparr>gs_files := dict_set relative_path file_metadata (gs_files st),
                               gs_clock := k\<rparr>
                 in case local_storage_path of
                      None \<Rightarrow> (st1, False)
                    | Some save_succeeds \<Rightarrow>
                        (case download_file_content_for_commit content_response of
                           None \<Rightarrow> (st1, False)
                         | Some content \<Rightarrow>
                             if content \<noteq> [] then (st1, \<not> save_succeeds relative_path)
                             else (st1, False))))
      else (st, False))"

text \<open>
  \<open>process_contents\<close> with \<open>handle_directory\<close> inside: the \<open>try\<close> of \<open>handle_directory\<close>
  catches what its own listing or the scan below it raises, and keeps what the scan had
  written into the dictionary before.
\<close>

fun process_contents ::
  "pylib \<Rightarrow> clock \<Rightarrow> (string \<Rightarrow> bool) option \<Rightarrow> item list \<Rightarrow> string \<Rightarrow> scan \<Rightarrow> scan \<times> bool"
and process_item ::
  "pylib \<Rightarrow> clock \<Rightarrow> (string \<Rightarrow> bool) option \<Rightarrow> item \<Rightarrow> string \<Rightarrow> scan \<Rightarrow> scan \<times> bool"
where
  "process_contents lib clk local_storage_path [] current_path st = (st, False)"
| "process_contents lib clk local_storage_path (item # items) current_path st =
     (case process_item lib clk local_storage_path item current_path st of
        (st1, True) \<Rightarrow> (st1, True)
      | (st1, False) \<Rightarrow> process_contents lib clk local_storage_path items current_path st1)"
| "process_item lib clk local_storage_path (Item ty name path metadata content subcontents)
     current_path st =
     (let relative_path = (if current_path \<noteq> [] then current_path @ ''/'' @ name else name)
      in if ty = ''file''
         then handle_file lib clk local_storage_path path metadata content relative_path st
         else if ty = ''dir''
         then (case subcontents of
                 None \<Rightarrow> (st, False)
               | Some listed \<Rightarrow>
                   (fst (process_contents lib clk local_storage_path listed relative_path st),
                    False))
         else (st, False))"

text \<open>What \<open>repo.get_contents(directory_path)\<close> answers: it raises, or a list, or one file.\<close>

datatype listing = ListingFails | Listed "item list" | Single item

definition get_directory_contents ::
  "pylib \<Rightarrow> clock \<Rightarrow> nat \<Rightarrow> listing \<Rightarrow> (string \<Rightarrow> bool) option \<Rightarrow> snapshot \<times> nat" where
  "get_directory_contents lib clk n contents local_storage_path =
     (let st0 = \<lparr>gs_files = [], gs_clock = n\<rparr>;
          (st, raised) =
            (case contents of
               ListingFails \<Rightarrow> (st0, True)
             | Listed items \<Rightarrow> process_contents lib clk local_storage_path items [] st0
             | Single single_file \<Rightarrow>
                 handle_file lib clk local_storage_path (it_path single_file)
                   (it_metadata single_file) (it_content single_file) (it_name single_file) st0)
      in (if raised then [] else gs_files st, gs_clock st))"

text \<open>
  \<open>main\<close> writes \<open>files_data.json\<close> only when the scan found a file; the file then holds
  the scan's dictionary.
\<close>

definition main_files_data :: "snapshot \<Rightarrow> snapshot stored \<Rightarrow> snapshot stored" where
  "main_files_data current_metadata files_data_file =
     (if current_metadata = [] then files_data_file else Stored current_metadata)"

section \<open>What the monitor writes and what the sweeper finds in it\<close>

definition undated :: "snapshot \<Rightarrow> bool" where
  "undated files_data = (\<forall>kv \<in> set files_data. fm_added_date (snd kv) = None)"

lemma set_dict_set: "set (dict_set k v files) \<subseteq> insert (k, v) (set files)"
  by (induction files) (auto split: if_splits)

lemma undated_dict_set:
  "undated files \<Longrightarrow> fm_added_date v = None \<Longrightarrow> undated (dict_set k v files)"
  unfolding undated_def using set_dict_set [of k v files] by fastforce

lemma download_file_metadata_undated:
  "download_file_metadata lib clk n response = (Some file_metadata, k) \<Longrightarrow>
   fm_added_date file_metadata = None \<and> fm_last_processed file_metadata = Some (isoformat lib (clk n))"
  by (auto simp: download_file_metadata_def split: fetched.splits if_splits option.splits)

lemma handle_file_undated:
  "undated (gs_files st) \<Longrightarrow>
   undated (gs_files (fst (handle_file lib clk local path metadata content relative_path st)))"
  by (auto simp: handle_file_def Let_def undated_dict_set
      dest!: download_file_metadata_undated split: prod.splits option.splits)

lemma process_undated:
  "undated (gs_files st) \<Longrightarrow>
     undated (gs_files (fst (process_contents lib clk local items current_path st)))"
  "undated (gs_files st) \<Longrightarrow>
     undated (gs_files (fst (process_item lib clk local item current_path st)))"
proof (induction lib clk local items current_path st and lib clk local item current_path st
    rule: process_contents_process_item.induct)
  case (1 lib clk local current_path st)
  then show ?case by simp
next
  case (2 lib clk local item items current_path st)
  obtain st1 raised where p: "process_item lib clk local item current_path st = (st1, raised)"
    by (cases "process_item lib clk local item current_path st")
  from "2.IH"(1) [OF "2.prems"] p have u1: "undated (gs_files st1)" by simp
  show ?case
  proof (cases raised)
    case True
    with p u1 show ?thesis by simp
  next
    case False
    then have rf: "raised = False" by simp
    from "2.IH"(2) [OF p [symmetric] rf u1]
    show ?thesis using p rf by simp
  qed
next
  case (3 lib clk local ty name path metadata content subcontents current_path st)
  show ?case
  proof (cases "ty = ''file''")
    case True
    then show ?thesis
      using "3.prems" by (simp add: Let_def handle_file_undated)
  next
    case nf: False
    show ?thesis
    proof (cases "ty = ''dir''")
      case False
      with nf "3.prems" show ?thesis by (simp add: Let_def)
    next
      case True
      show ?thesis
      proof (cases subcontents)
        case None
        with nf True "3.prems" show ?thesis by (simp add: Let_def)
      next
        case (Some listed)
        from "3.IH" [OF refl nf True Some "3.prems"]
        show ?thesis using nf True Some by (simp add: Let_def)
      qed
    qed
  qed
qed

lemma get_directory_contents_undated:
  "undated (fst (get_directory_contents lib clk n contents local))"
proof -
  have u0: "undated (gs_files \<lparr>gs_files = [], gs_clock = n\<rparr>)"
    by (simp add: undated_def)
  have e: "undated []" by (simp add: undated_def)
  show ?thesis
  proof (cases contents)
    case ListingFails
    then show ?thesis by (simp add: get_directory_contents_def e)
  next
    case (Listed items)
    obtain st raised where p: "process_contents lib clk local items [] \<lparr>gs_files = [], gs_clock = n\<rparr>
        = (st, raised)"
      by (cases "process_contents lib clk local items [] \<lparr>gs_files = [], gs_clock = n\<rparr>")
    from process_undated(1) [OF u0, of lib clk local items "[]"] p
    have "undated (gs_files st)" by simp
    then show ?thesis
      using Listed e p by (simp add: get_directory_contents_def Let_def)
  next
    case (Single f)
    obtain st raised where p: "handle_file lib clk local (it_path f) (it_metadata f)
        (it_content f) (it_name f) \<lparr>gs_files = [], gs_clock = n\<rparr> = (st, raised)"
      by (cases "handle_file lib clk local (it_path f) (it_metadata f)
        (it_content f) (it_name f) \<lparr>gs_files = [], gs_clock = n\<rparr>")
    from handle_file_undated [OF u0, of lib clk local "it_path f" "it_metadata f"
        "it_content f" "it_name f"] p
    have "undated (gs_files st)" by simp
    then show ?thesis
      using Single e p by (simp add: get_directory_contents_def Let_def)
  qed
qed

lemma analyze_repo_item_undated:
  "fm_added_date file_info = None \<Longrightarrow>
   analyze_repo_item lib clk cutoff file_path file_info v
     = v\<lparr>rv_total_files := rv_total_files v + 1,
         rv_total_size := rv_total_size v + get_size file_info\<rparr>"
  by (simp add: analyze_repo_item_def Let_def)

lemma analyze_repo_loop_undated:
  "undated files_data \<Longrightarrow>
   analyze_repo_loop lib clk cutoff files_data v
     = v\<lparr>rv_total_files := rv_total_files v + length files_data,
         rv_total_size := rv_total_size v + sum_list (map (get_size \<circ> snd) files_data)\<rparr>"
proof (induction files_data arbitrary: v)
  case Nil
  then show ?case by simp
next
  case (Cons kv files_data)
  obtain file_path file_info where kv: "kv = (file_path, file_info)" by (cases kv)
  from Cons.prems have a: "fm_added_date file_info = None" and b: "undated files_data"
    by (simp_all add: undated_def kv)
  show ?case
    unfolding kv by (simp add: analyze_repo_item_undated [OF a] Cons.IH [OF b] algebra_simps)
qed

lemma analyze_repo_undated:
  assumes "files_data_json fs = Stored files_data" and "undated files_data"
    and "cutoff_date_of (clk n) thr = Inr cutoff"
  shows "analyze_repo_files_for_cleanup lib clk n fs thr
           = Inr (([], length files_data, sum_list (map (get_size \<circ> snd) files_data)), Suc n)"
  using assms(1,3)
  by (simp add: analyze_repo_files_for_cleanup_def analyze_repo_loop_undated [OF assms(2)])

lemma undated_map:
  "undated files_data \<Longrightarrow>
   map (\<lambda>kv. fm_added_date (snd kv)) files_data = replicate (length files_data) None"
  by (induction files_data) (simp_all add: undated_def)

lemma main_files_data_written:
  "current_metadata \<noteq> [] \<Longrightarrow> main_files_data current_metadata previous = Stored current_metadata"
  by (simp add: main_files_data_def)

subsection \<open>Example data\<close>

text \<open>
  A listing of the monitored directory: a file, and a directory that holds a file with an
  upper-case extension and an image. The scan reads the clock of the examples twice.
\<close>

definition example_file :: "string \<Rightarrow> string \<Rightarrow> int \<Rightarrow> item" where
  "example_file name path n =
     Item ''file'' name path
       (Got \<lparr>cf_type = ''file'', cf_sha = ''abc'', cf_size = n, cf_path = path,
             cf_download_url = None, cf_decoded_content = Some ''text''\<rparr>)
       (Got \<lparr>cf_type = ''file'', cf_sha = ''abc'', cf_size = n, cf_path = path,
             cf_download_url = None, cf_decoded_content = Some ''text''\<rparr>)
       None"

definition example_listing :: listing where
  "example_listing =
     Listed [example_file ''README.md'' ''docs/README.md'' 10,
             Item ''dir'' ''guide'' ''docs/guide'' Fails Fails
               (Some [example_file ''intro.TXT'' ''docs/guide/intro.TXT'' 20,
                      example_file ''logo.png'' ''docs/guide/logo.png'' 500])]"

definition example_scanned :: "string \<Rightarrow> string \<Rightarrow> int \<Rightarrow> file_metadata" where
  "example_scanned path t n =
     \<lparr>fm_sha = Some ''abc'', fm_size = Some n, fm_path = Some path,
      fm_content_hash = Some ''e3b0c44298fc1c149afbf4c8996fb92427ae41e4649b934ca495991b7852b855'',
      fm_download_url = None, fm_last_processed = Some t, fm_added_date = None\<rparr>"

definition example_scanned_dir :: content_dir where
  "example_scanned_dir =
     \<lparr>files_data_json =
        main_files_data (fst (get_directory_contents example_lib example_clock 0 example_listing None))
          Missing,
      files_data_writable = True,
      content_files = Map.empty,
      feed_entries_json = Missing,
      feed_entries_writable = True\<rparr>"

lemma example_should_process_file:
  "should_process_file ''docs/README.md''"
  "should_process_file ''docs/guide/intro.TXT''"
  "\<not> should_process_file ''docs/guide/logo.png''"
  by code_simp+

lemma example_get_directory_contents:
  "get_directory_contents example_lib example_clock 0 example_listing None
     = ([(''README.md'', example_scanned ''docs/README.md'' ''2024-06-01T00:00:00'' 10),
         (''guide/intro.TXT'', example_scanned ''docs/guide/intro.TXT'' ''2024-06-01T00:00:01'' 20)],
        2)"
  by (simp add: get_directory_contents_def example_listing_def example_file_def handle_file_def
        example_should_process_file download_file_metadata_def example_scanned_def
        example_lib_def example_clock_def Let_def)

lemma example_cutoff_3: "cutoff_date_of 63852796803000000 0 = Inr 63852796803000000"
  by (simp add: cutoff_date_of_def timedelta_days_def minus_timedelta_def day_us_def max_ticks_def)

lemma example_analyze_repo_later:
  "analyze_repo_files_for_cleanup example_lib example_clock 3 example_dir 0
     = Inr (([\<lparr>rc_path = ''old.md'', rc_size = 120, rc_added_date = ''2024-03-02T00:00:00'',
                rc_days_old = Days 91\<rparr>,
              \<lparr>rc_path = ''recent.md'', rc_size = 80, rc_added_date = ''2024-03-03T00:00:00'',
                rc_days_old = Days 90\<rparr>], 3, 240), 6)"
  by (simp add: analyze_repo_files_for_cleanup_def example_dir_def example_cutoff_3
        analyze_repo_item_def example_dated_def example_metadata_def get_size_def
        example_replace_Z example_fromisoformat datetime_less_def days_since_def
        example_clock_def day_us_def Let_def)

text \<open>
  Claim C10. Let the cutoff date \<open>now - timedelta(days=thr)\<close> be a date of the calendar.
  In the analysis of a \<open>files_data.json\<close> that holds a dictionary, an item whose metadata
  has no \<open>added_date\<close> is not among the candidates that \<open>analyze_repo_files_for_cleanup\<close>
  returns, whatever its other fields and whatever the clock and the threshold. The
  dictionary that \<open>get_directory_contents\<close> returns has no \<open>added_date\<close> in any of its
  values, for every listing of the monitored directory and every answer of the content
  host; so when \<open>main\<close> of the monitor has written it to \<open>files_data.json\<close>, the analysis
  of that file counts all its items and returns no candidate.
\<close>

theorem items_without_added_date_never_candidates:
  assumes "\<bar>thr\<bar> \<le> 999999999" and "0 \<le> clk n - thr * day_us" and "clk n - thr * day_us < max_ticks"
  shows "(files_data_json fs = Stored files_data \<and> distinct (map fst files_data)
            \<and> (p, info) \<in> set files_data \<and> fm_added_date info = None
          \<longrightarrow> (\<exists>cands n'.
                 analyze_repo_files_for_cleanup lib clk n fs thr
                   = Inr ((cands, length files_data, sum_list (map (get_size \<circ> snd) files_data)), n')
                 \<and> p \<notin> rc_path ` set cands))
       \<and> (current_metadata = fst (get_directory_contents lib0 clk0 m contents local_storage_path)
            \<and> current_metadata \<noteq> []
            \<and> files_data_json fs' = main_files_data current_metadata previous
          \<longrightarrow> map (\<lambda>kv. fm_added_date (snd kv)) current_metadata
                = replicate (length current_metadata) None
              \<and> analyze_repo_files_for_cleanup lib clk n fs' thr
                  = Inr (([], length current_metadata,
                          sum_list (map (get_size \<circ> snd) current_metadata)), Suc n))"
proof (intro conjI impI)
  let ?cutoff = "clk n - thr * day_us"
  have cut: "cutoff_date_of (clk n) thr = Inr ?cutoff"
    using assms by (rule cutoff_in_range)
  {
    assume a: "files_data_json fs = Stored files_data \<and> distinct (map fst files_data)
            \<and> (p, info) \<in> set files_data \<and> fm_added_date info = None"
    then have a1: "files_data_json fs = Stored files_data" and a2: "distinct (map fst files_data)"
      and a3: "(p, info) \<in> set files_data" and a4: "fm_added_date info = None"
      by simp_all
    from analyze_repo_result [where clk = clk and n = n and lib = lib, OF a1 cut]
    obtain cands n' where r:
      "analyze_repo_files_for_cleanup lib clk n fs thr
         = Inr ((cands, length files_data, sum_list (map (get_size \<circ> snd) files_data)), n')"
      "map rc_path cands = map fst (filter (\<lambda>kv. repo_is_candidate lib ?cutoff (snd kv)) files_data)"
      by blast
    have "(p \<in> set (map rc_path cands)) = repo_is_candidate lib ?cutoff info"
      unfolding r(2) using key_in_filter [OF a2 a3, of "\<lambda>kv. repo_is_candidate lib ?cutoff (snd kv)"]
      by simp
    moreover have "\<not> repo_is_candidate lib ?cutoff info"
      using a4 by (simp add: repo_is_candidate_def)
    ultimately have "p \<notin> rc_path ` set cands" by simp
    with r(1) show "\<exists>cands n'.
                 analyze_repo_files_for_cleanup lib clk n fs thr
                   = Inr ((cands, length files_data, sum_list (map (get_size \<circ> snd) files_data)), n')
                 \<and> p \<notin> rc_path ` set cands"
      by blast
  }
  {
    assume b: "current_metadata = fst (get_directory_contents lib0 clk0 m contents local_storage_path)
            \<and> current_metadata \<noteq> []
            \<and> files_data_json fs' = main_files_data current_metadata previous"
    then have u: "undated current_metadata"
      by (simp add: get_directory_contents_undated)
    from b have "current_metadata \<noteq> []"
      and "files_data_json fs' = main_files_data current_metadata previous"
      by blast+
    then have w: "files_data_json fs' = Stored current_metadata"
      by (simp add: main_files_data_written)
    from u show "map (\<lambda>kv. fm_added_date (snd kv)) current_metadata
                = replicate (length current_metadata) None"
      by (rule undated_map)
    from w u cut show "analyze_repo_files_for_cleanup lib clk n fs' thr
                  = Inr (([], length current_metadata,
                          sum_list (map (get_size \<circ> snd) current_metadata)), Suc n)"
      by (rule analyze_repo_undated)
  }
qed

theorem items_without_added_date_never_candidates_witness:
  "(\<exists>cands n'.
      analyze_repo_files_for_cleanup example_lib example_clock 3 example_dir 0
        = Inr ((cands, 3, 240), n')
      \<and> ''undated.md'' \<notin> rc_path ` set cands \<and> ''recent.md'' \<in> rc_path ` set cands)
   \<and> files_data_json example_scanned_dir
       = Stored [(''README.md'', example_scanned ''docs/README.md'' ''2024-06-01T00:00:00'' 10),
                 (''guide/intro.TXT'',
                  example_scanned ''docs/guide/intro.TXT'' ''2024-06-01T00:00:01'' 20)]
   \<and> analyze_repo_files_for_cleanup example_lib example_clock 3 example_scanned_dir 0
       = Inr (([], 2, 30), 4)"
proof -
  let ?files = "[(''old.md'', example_dated ''2024-03-02T00:00:00'' 120),
                 (''recent.md'', example_dated ''2024-03-03T00:00:00'' 80),
                 (''undated.md'', example_metadata ''H3'' 40)]"
  let ?scanned = "[(''README.md'', example_scanned ''docs/README.md'' ''2024-06-01T00:00:00'' 10),
                   (''guide/intro.TXT'',
                    example_scanned ''docs/guide/intro.TXT'' ''2024-06-01T00:00:01'' 20)]"
  have h1: "\<bar>0 :: int\<bar> \<le> 999999999" by simp
  have h2: "0 \<le> example_clock 3 - 0 * day_us"
    by (simp add: example_clock_def)
  have h3: "example_clock 3 - 0 * day_us < max_ticks"
    by (simp add: example_clock_def max_ticks_def day_us_def)
  have a: "files_data_json example_dir = Stored ?files \<and> distinct (map fst ?files)
            \<and> (''undated.md'', example_metadata ''H3'' 40) \<in> set ?files
            \<and> fm_added_date (example_metadata ''H3'' 40) = None"
    by (simp add: example_dir_def example_metadata_def)
  have s: "fst (get_directory_contents example_lib example_clock 0 example_listing None) = ?scanned"
    by (simp add: example_get_directory_contents)
  have w: "files_data_json example_scanned_dir = Stored ?scanned"
    by (simp add: example_scanned_dir_def s main_files_data_def)
  have b: "?scanned = fst (get_directory_contents example_lib example_clock 0 example_listing None)
            \<and> ?scanned \<noteq> []
            \<and> files_data_json example_scanned_dir = main_files_data ?scanned Missing"
    by (simp add: s w main_files_data_def)
  note inst = items_without_added_date_never_candidates
    [where clk = example_clock and n = 3 and lib = example_lib and fs = example_dir
       and files_data = ?files and p = "''undated.md''" and info = "example_metadata ''H3'' 40"
       and current_metadata = ?scanned and ?lib0.0 = example_lib and ?clk0.0 = example_clock
       and m = 0 and contents = example_listing and local_storage_path = None
       and fs' = example_scanned_dir and previous = Missing, OF h1 h2 h3]
  have sizes: "length ?files = 3" "sum_list (map (get_size \<circ> snd) ?files) = 240"
    "length ?scanned = 2" "sum_list (map (get_size \<circ> snd) ?scanned) = 30"
    by (simp_all add: get_size_def example_dated_def example_metadata_def example_scanned_def)
  have concrete:
    "''recent.md'' \<in> rc_path ` set [\<lparr>rc_path = ''old.md'', rc_size = 120,
         rc_added_date = ''2024-03-02T00:00:00'', rc_days_old = Days 91\<rparr>,
       \<lparr>rc_path = ''recent.md'', rc_size = 80, rc_added_date = ''2024-03-03T00:00:00'',
         rc_days_old = Days 90\<rparr>]"
    by simp
  from inst a b have
    c1: "\<exists>cands n'. analyze_repo_files_for_cleanup example_lib example_clock 3 example_dir 0
                   = Inr ((cands, length ?files, sum_list (map (get_size \<circ> snd) ?files)), n')
                 \<and> ''undated.md'' \<notin> rc_path ` set cands"
    and c2: "analyze_repo_files_for_cleanup example_lib example_clock 3 example_scanned_dir 0
                  = Inr (([], length ?scanned, sum_list (map (get_size \<circ> snd) ?scanned)), Suc 3)"
    by blast+
  from c1 have "\<exists>cands n'.
      analyze_repo_files_for_cleanup example_lib example_clock 3 example_dir 0
        = Inr ((cands, 3, 240), n')
      \<and> ''undated.md'' \<notin> rc_path ` set cands \<and> ''recent.md'' \<in> rc_path ` set cands"
    unfolding example_analyze_repo_later using concrete by simp
  moreover from c2 have "analyze_repo_files_for_cleanup example_lib example_clock 3 example_scanned_dir 0
       = Inr (([], 2, 30), 4)"
    unfolding sizes by simp
  ultimately show ?thesis using w by (intro conjI)
qed

end
